theory Spec2Isabelle
  imports Main
begin

section \<open>Values and objects\<close>

text \<open>
  The store keeps plain data: the values that an object literal or \<^verbatim>\<open>JSON.parse\<close> can
  build. Numbers are the integers (the store never computes with them; it only tests
  them for truth and turns them into property keys). A string is the list of its
  characters. An object is the list of its own properties in enumeration order; its
  prototype is \<^verbatim>\<open>Object.prototype\<close>, which no part of the program changes.

  One more kind of value reaches the store: reading a key of the table that names a
  property of \<^verbatim>\<open>Object.prototype\<close> gives that property. \<open>JBuiltin n\<close> is the value that
  \<^verbatim>\<open>Object.prototype\<close> holds under the name \<open>n\<close>: a built-in function, and under the name
  \<^verbatim>\<open>__proto__\<close> the object \<^verbatim>\<open>Object.prototype\<close> itself. It is truthy, and it has no
  enumerable property of its own and no property \<^verbatim>\<open>_id\<close> or \<^verbatim>\<open>$deleted\<close>.
\<close>

datatype jsval =
    JUndefined
  | JNull
  | JBool bool
  | JNum int
  | JStr string
  | JArr "jsval list"
  | JObj "(string \<times> jsval) list"
  | JBuiltin string

type_synonym doc = "(string \<times> jsval) list"

text \<open>What \<^verbatim>\<open>if (v)\<close> and \<^verbatim>\<open>!v\<close> test.\<close>

fun truthy :: "jsval \<Rightarrow> bool" where
  "truthy JUndefined = False"
| "truthy JNull = False"
| "truthy (JBool b) = b"
| "truthy (JNum n) = (n \<noteq> 0)"
| "truthy (JStr s) = (s \<noteq> [])"
| "truthy (JArr xs) = True"
| "truthy (JObj ps) = True"
| "truthy (JBuiltin n) = True"

text \<open>
  \<^verbatim>\<open>d[k]\<close> on a document, for the names the store reads from a document (\<^verbatim>\<open>_id\<close>,
  \<^verbatim>\<open>$deleted\<close>): the value of the own property, \<^verbatim>\<open>undefined\<close> when there is none, since
  \<^verbatim>\<open>Object.prototype\<close> has no property of these names. Reading a key of the table is
  \<open>get_entry\<close> below, which follows the prototype chain.
\<close>

definition get_prop :: "(string \<times> jsval) list \<Rightarrow> string \<Rightarrow> jsval" where
  "get_prop d k = (case map_of d k of None \<Rightarrow> JUndefined | Some v \<Rightarrow> v)"

subsection \<open>Property order\<close>

text \<open>
  Own properties are enumerated with the array indices first, in ascending numeric order,
  then the other string keys in the order they were created. An array index is the
  canonical decimal form of a number below \<open>2^32 - 1\<close>.
\<close>

definition is_digit :: "char \<Rightarrow> bool" where
  "is_digit c = (c \<in> set ''0123456789'')"

definition digit_val :: "char \<Rightarrow> nat" where
  "digit_val c = of_char c - 48"

definition digits_val :: "string \<Rightarrow> nat" where
  "digits_val s = foldl (\<lambda>n c. 10 * n + digit_val c) 0 s"

definition is_array_index :: "string \<Rightarrow> bool" where
  "is_array_index s =
     (case s of
        [] \<Rightarrow> False
      | c # r \<Rightarrow> list_all is_digit s \<and> (if c = CHR ''0'' then r = [] else True)
                 \<and> digits_val s < 4294967295)"

text \<open>Where a new key goes in the enumeration order.\<close>

fun obj_add :: "string \<Rightarrow> 'v \<Rightarrow> (string \<times> 'v) list \<Rightarrow> (string \<times> 'v) list" where
  "obj_add k v [] = [(k, v)]"
| "obj_add k v ((k', v') # r) =
     (if is_array_index k \<and> (if is_array_index k' then digits_val k < digits_val k' else True)
      then (k, v) # (k', v') # r
      else (k', v') # obj_add k v r)"

text \<open>An existing key keeps its place and gets the new value.\<close>

fun obj_replace :: "string \<Rightarrow> 'v \<Rightarrow> (string \<times> 'v) list \<Rightarrow> (string \<times> 'v) list" where
  "obj_replace k v [] = []"
| "obj_replace k v ((k', v') # r) =
     (if k' = k then (k, v) # r else (k', v') # obj_replace k v r)"

text \<open>\<^verbatim>\<open>o[k] = v\<close>, and \<^verbatim>\<open>{ ...o, k: v }\<close> on a copy.\<close>

definition obj_set :: "string \<Rightarrow> 'v \<Rightarrow> (string \<times> 'v) list \<Rightarrow> (string \<times> 'v) list" where
  "obj_set k v ob = (if map_of ob k = None then obj_add k v ob else obj_replace k v ob)"

subsection \<open>Property keys\<close>

text \<open>
  \<^verbatim>\<open>this.data[doc._id]\<close> turns the \<^verbatim>\<open>_id\<close> into a property key with \<^verbatim>\<open>ToString\<close>. The
  integers are written in decimal (as JavaScript does below \<open>10^21\<close>). An array joins
  its elements with commas, \<^verbatim>\<open>null\<close> and \<^verbatim>\<open>undefined\<close> giving the empty string. An
  object gives \<^verbatim>\<open>[object Object]\<close>, unless it has an own property \<^verbatim>\<open>toString\<close>: that one
  hides the inherited method and is not callable, and the conversion throws a TypeError.
  A built-in function gives its source text.
\<close>

definition builtin_text :: "string \<Rightarrow> string" where
  "builtin_text n =
     (if n = ''__proto__'' then ''[object Object]''
      else ''function '' @ (if n = ''constructor'' then ''Object'' else n)
             @ ''() { [native code] }'')"

fun show_nat :: "nat \<Rightarrow> string" where
  "show_nat n =
     (if n < 10 then [char_of (48 + n)] else show_nat (n div 10) @ [char_of (48 + n mod 10)])"

definition show_int :: "int \<Rightarrow> string" where
  "show_int i = (if i < 0 then CHR ''-'' # show_nat (nat (- i)) else show_nat (nat i))"

fun join :: "string \<Rightarrow> string list \<Rightarrow> string" where
  "join sep [] = []"
| "join sep [s] = s"
| "join sep (s # t # r) = s @ sep @ join sep (t # r)"

fun to_string :: "jsval \<Rightarrow> string"
  and to_string_elems :: "jsval list \<Rightarrow> string list" where
  "to_string JUndefined = ''undefined''"
| "to_string JNull = ''null''"
| "to_string (JBool b) = (if b then ''true'' else ''false'')"
| "to_string (JNum n) = show_int n"
| "to_string (JStr s) = s"
| "to_string (JArr xs) = join '','' (to_string_elems xs)"
| "to_string (JObj ps) = ''[object Object]''"
| "to_string (JBuiltin n) = builtin_text n"
| "to_string_elems [] = []"
| "to_string_elems (x # xs) =
     (if x = JUndefined \<or> x = JNull then [] else to_string x) # to_string_elems xs"

fun to_string_throws :: "jsval \<Rightarrow> bool"
  and to_string_throws_elems :: "jsval list \<Rightarrow> bool" where
  "to_string_throws (JObj ps) = (map_of ps ''toString'' \<noteq> None)"
| "to_string_throws (JArr xs) = to_string_throws_elems xs"
| "to_string_throws JUndefined = False"
| "to_string_throws JNull = False"
| "to_string_throws (JBool b) = False"
| "to_string_throws (JNum n) = False"
| "to_string_throws (JStr s) = False"
| "to_string_throws (JBuiltin n) = False"
| "to_string_throws_elems [] = False"
| "to_string_throws_elems (x # xs) = (to_string_throws x \<or> to_string_throws_elems xs)"

section \<open>Validation\<close>

text \<open>
  The predicates of \<^verbatim>\<open>validation.js\<close>. The source of that file is not available, so
  each predicate follows the contract that the specification gives for it.
\<close>

text \<open>Modelled from the spec: \<^verbatim>\<open>isObject\<close> (validation.js): true iff the value is a
  document (not a sequence, not null, not a scalar).\<close>

fun isObject :: "jsval \<Rightarrow> bool" where
  "isObject (JObj ps) = True"
| "isObject v = False"

text \<open>Modelled from the spec: \<^verbatim>\<open>isEmptyObject\<close> (validation.js): true iff the value is
  a document with zero fields.\<close>

fun isEmptyObject :: "jsval \<Rightarrow> bool" where
  "isEmptyObject (JObj ps) = (ps = [])"
| "isEmptyObject v = False"

definition bad_field_name :: "string \<Rightarrow> bool" where
  "bad_field_name k = (CHR ''.'' \<in> set k \<or> (case k of [] \<Rightarrow> False | c # r \<Rightarrow> c = CHR ''$''))"

text \<open>Modelled from the spec: \<^verbatim>\<open>isInvalidDoc\<close> (validation.js): true iff the value is
  not a document, or a field name contains a dot or starts with a dollar sign (checked
  recursively into nested documents, not into sequence elements), or a value is the
  absent sentinel.\<close>

fun invalid_value :: "jsval \<Rightarrow> bool"
  and invalid_fields :: "(string \<times> jsval) list \<Rightarrow> bool" where
  "invalid_value JUndefined = True"
| "invalid_value (JObj ps) = invalid_fields ps"
| "invalid_value JNull = False"
| "invalid_value (JBool b) = False"
| "invalid_value (JNum n) = False"
| "invalid_value (JStr s) = False"
| "invalid_value (JArr xs) = False"
| "invalid_value (JBuiltin n) = False"
| "invalid_fields [] = False"
| "invalid_fields ((k, v) # r) = (bad_field_name k \<or> invalid_value v \<or> invalid_fields r)"

fun isInvalidDoc :: "jsval \<Rightarrow> bool" where
  "isInvalidDoc (JObj ps) = invalid_fields ps"
| "isInvalidDoc v = True"

definition is_modifier :: "string \<Rightarrow> bool" where
  "is_modifier k = (k \<in> set [''$set'', ''$add'', ''$push''])"

text \<open>Modelled from the spec: \<^verbatim>\<open>hasModifiers\<close> (validation.js): true iff the value is a
  document with at least one top-level key among \<^verbatim>\<open>$set\<close>, \<^verbatim>\<open>$add\<close>, \<^verbatim>\<open>$push\<close>.\<close>

fun hasModifiers :: "jsval \<Rightarrow> bool" where
  "hasModifiers (JObj ps) = list_ex (\<lambda>(k, v). is_modifier k) ps"
| "hasModifiers v = False"

text \<open>Modelled from the spec: \<^verbatim>\<open>hasMixedModifiers\<close> (validation.js): true iff the
  value has at least one reserved top-level key and at least one that is not reserved.\<close>

fun hasMixedModifiers :: "jsval \<Rightarrow> bool" where
  "hasMixedModifiers (JObj ps) =
     (list_ex (\<lambda>(k, v). is_modifier k) ps \<and> list_ex (\<lambda>(k, v). \<not> is_modifier k) ps)"
| "hasMixedModifiers v = False"

section \<open>Projection\<close>

text \<open>Modelled from the spec: \<^verbatim>\<open>objectProject\<close> (modifiers.js): without a field list
  the document is returned unchanged; with one, a new document holding only the
  top-level fields named, a requested field that the document lacks being left out.\<close>

definition project_fields :: "doc \<Rightarrow> string list \<Rightarrow> doc" where
  "project_fields d fs =
     foldl (\<lambda>acc f. case map_of d f of None \<Rightarrow> acc | Some v \<Rightarrow> obj_set f v acc) [] fs"

definition objectProject :: "doc \<Rightarrow> string list option \<Rightarrow> doc" where
  "objectProject d projection =
     (case projection of None \<Rightarrow> d | Some fs \<Rightarrow> project_fields d fs)"

section \<open>The store\<close>

datatype error =
    MemoryModeLoad
  | MemoryModePersist
  | InvalidNewDocs
  | NotAnObject
  | InvalidDocument
  | IdExists
  | InvalidId
  | InvalidQuery
  | InvalidUpdate
  | MissingId
  | TypeError
  | SyntaxError
  | OutOfFuel
  | Thrown string

type_synonym table = "(string \<times> doc) list"

text \<open>
  The fields of a \<^verbatim>\<open>LeafDB\<close> instance. \<open>data\<close> holds the own properties of the hash table
  \<^verbatim>\<open>this.data\<close>: every value the methods store in it is an object, so the table maps keys
  to documents. \<open>filepath\<close> is \<^verbatim>\<open>this.file\<close>.

  \<^verbatim>\<open>this.data\<close> is created as \<^verbatim>\<open>{}\<close>: its prototype is \<^verbatim>\<open>Object.prototype\<close>, until an
  assignment to the key \<^verbatim>\<open>__proto__\<close> replaces it. \<open>proto\<close> is \<open>None\<close> in the first case and
  \<open>Some p\<close> when the prototype of the table is the document \<open>p\<close> (whose own prototype is
  \<^verbatim>\<open>Object.prototype\<close>).
\<close>

record leafdb =
  root :: "string option"
  strict :: bool
  data :: table
  filepath :: "string option"
  proto :: "doc option"

text \<open>The names of the properties of \<^verbatim>\<open>Object.prototype\<close>.\<close>

definition proto_names :: "string list" where
  "proto_names =
     [''constructor'', ''__defineGetter__'', ''__defineSetter__'', ''hasOwnProperty'',
      ''__lookupGetter__'', ''__lookupSetter__'', ''isPrototypeOf'', ''propertyIsEnumerable'',
      ''toString'', ''valueOf'', ''__proto__'', ''toLocaleString'']"

text \<open>
  What a key finds along the prototype chain of the table, when the table has no own
  property of that name: a property of the prototype document if there is one, then the
  properties of \<^verbatim>\<open>Object.prototype\<close>, where the getter \<^verbatim>\<open>__proto__\<close> returns the prototype of
  the table.
\<close>

definition inherited :: "doc option \<Rightarrow> string \<Rightarrow> jsval" where
  "inherited p k =
     (case p of
        None \<Rightarrow> if k \<in> set proto_names then JBuiltin k else JUndefined
      | Some pd \<Rightarrow>
          (case map_of pd k of
             Some v \<Rightarrow> v
           | None \<Rightarrow>
               if k = ''__proto__'' then JObj pd
               else if k \<in> set proto_names then JBuiltin k
               else JUndefined))"

text \<open>\<^verbatim>\<open>this.data[key]\<close>.\<close>

definition get_entry :: "table \<Rightarrow> doc option \<Rightarrow> string \<Rightarrow> jsval" where
  "get_entry tbl p k = (case map_of tbl k of Some d \<Rightarrow> JObj d | None \<Rightarrow> inherited p k)"

text \<open>The files of the disk: the content of each path that exists.\<close>

type_synonym disk = "string \<Rightarrow> string option"

text \<open>
  The collaborators the store is verified against, passed as arguments:
  \<^item> \<open>stringify\<close> and \<open>parse\<close>, for \<^verbatim>\<open>JSON.stringify\<close> and \<^verbatim>\<open>JSON.parse\<close>, either of which
    can throw;
  \<^item> \<open>uid\<close>, the identifiers that successive calls of \<^verbatim>\<open>getUid()\<close> return;
  \<^item> \<open>isQueryMatch\<close> (validation.js) and \<open>objectModify\<close> (modifiers.js), whose sources
    are not available: the store is verified for every matcher and for every modifier
    engine that returns a document or throws.
\<close>

type_synonym stringifier = "jsval \<Rightarrow> error + string"
type_synonym parser = "string \<Rightarrow> error + jsval"
type_synonym matcher = "doc \<Rightarrow> jsval \<Rightarrow> bool"
type_synonym modifier = "jsval \<Rightarrow> jsval \<Rightarrow> error + doc"

text \<open>\<^verbatim>\<open>toArray\<close> (utils).\<close>

fun toArray :: "jsval \<Rightarrow> jsval list" where
  "toArray (JArr xs) = xs"
| "toArray v = [v]"

text \<open>The test \<^verbatim>\<open>!key || typeof key !== 'string'\<close>: the key when it passes.\<close>

fun id_string :: "jsval \<Rightarrow> string option" where
  "id_string (JStr s) = (if s = [] then None else Some s)"
| "id_string v = None"

text \<open>\<^verbatim>\<open>doc.$deleted\<close> is truthy.\<close>

definition tombstoned :: "doc \<Rightarrow> bool" where
  "tombstoned d = truthy (get_prop d ''$deleted'')"

text \<open>
  \<^verbatim>\<open>this.data[key] = doc\<close>. An own property takes the new value. Otherwise the key
  \<^verbatim>\<open>__proto__\<close> reaches the setter of \<^verbatim>\<open>Object.prototype\<close>, unless the prototype document has
  a property of that name: the setter makes the document the prototype of the table and
  creates no property. Any other key becomes an own property, also when it names an
  inherited one.
\<close>

definition set_entry :: "string \<Rightarrow> doc \<Rightarrow> table \<Rightarrow> doc option \<Rightarrow> table \<times> doc option" where
  "set_entry k d tbl p =
     (if map_of tbl k = None \<and> k = ''__proto__''
         \<and> (case p of None \<Rightarrow> True | Some pd \<Rightarrow> map_of pd k = None)
      then (tbl, Some d)
      else (obj_set k d tbl, p))"

text \<open>
  \<^verbatim>\<open>{ ...v }\<close>: the own enumerable properties of a value. A string and an array have one
  for each index.
\<close>

definition index_props :: "jsval list \<Rightarrow> doc" where
  "index_props xs = zip (map show_nat [0..<length xs]) xs"

fun spread :: "jsval \<Rightarrow> doc" where
  "spread (JObj d) = d"
| "spread (JArr xs) = index_props xs"
| "spread (JStr s) = index_props (map (\<lambda>c. JStr [c]) s)"
| "spread v = []"

text \<open>\<^verbatim>\<open>doc && !doc.$deleted\<close>.\<close>

fun kept :: "jsval \<Rightarrow> bool" where
  "kept (JObj d) = (\<not> tombstoned d)"
| "kept v = truthy v"

text \<open>\<^verbatim>\<open>!this.root\<close> and \<^verbatim>\<open>!this.file\<close>: the path when it is set.\<close>

fun path_set :: "string option \<Rightarrow> string option" where
  "path_set None = None"
| "path_set (Some p) = (if p = [] then None else Some p)"

subsection \<open>persist\<close>

fun persist_loop :: "stringifier \<Rightarrow> bool \<Rightarrow> doc list \<Rightarrow> string list \<Rightarrow> error + string list" where
  "persist_loop stringify strct [] payload = Inr payload"
| "persist_loop stringify strct (d # docs) payload =
     (if tombstoned d then persist_loop stringify strct docs payload
      else (case stringify (JObj d) of
              Inr s \<Rightarrow> persist_loop stringify strct docs (payload @ [s])
            | Inl err \<Rightarrow> if strct then Inl err else persist_loop stringify strct docs payload))"

definition persist :: "stringifier \<Rightarrow> leafdb \<Rightarrow> table \<Rightarrow> disk \<Rightarrow> error + disk" where
  "persist stringify db tbl dk =
     (case path_set (filepath db) of
        None \<Rightarrow> Inl MemoryModePersist
      | Some f \<Rightarrow>
          (case persist_loop stringify (strict db) (map snd tbl) [] of
             Inl err \<Rightarrow> Inl err
           | Inr payload \<Rightarrow> Inr (dk(f \<mapsto> join [CHR 0x0A] payload))))"

subsection \<open>load\<close>

text \<open>\<^verbatim>\<open>raw.replace('\\', '\\\\')\<close>: a string pattern replaces its first occurrence only;
  the pattern is one backslash, the replacement two.\<close>

fun replace_backslash :: "string \<Rightarrow> string" where
  "replace_backslash [] = []"
| "replace_backslash (c # r) =
     (if c = CHR 0x5C then CHR 0x5C # CHR 0x5C # r else c # replace_backslash r)"

text \<open>\<^verbatim>\<open>s.split(c)\<close>.\<close>

fun split :: "char \<Rightarrow> string \<Rightarrow> string list" where
  "split c [] = [[]]"
| "split c (x # xs) =
     (if x = c then [] # split c xs
      else (case split c xs of [] \<Rightarrow> [[x]] | l # ls \<Rightarrow> (x # l) # ls))"

text \<open>The body of the \<^verbatim>\<open>try\<close> for one line: the table with the parsed document stored, or
  what was thrown.\<close>

definition load_line ::
  "parser \<Rightarrow> string \<Rightarrow> table \<Rightarrow> doc option \<Rightarrow> error + table \<times> doc option" where
  "load_line parse raw tbl p =
     (case parse (replace_backslash raw) of
        Inl err \<Rightarrow> Inl err
      | Inr JUndefined \<Rightarrow> Inl TypeError
      | Inr JNull \<Rightarrow> Inl TypeError
      | Inr (JObj d) \<Rightarrow>
          if \<not> truthy (get_prop d ''_id'') then Inl MissingId
          else if to_string_throws (get_prop d ''_id'') then Inl TypeError
          else Inr (set_entry (to_string (get_prop d ''_id'')) d tbl p)
      | Inr v \<Rightarrow> Inl MissingId)"

fun load_loop ::
  "parser \<Rightarrow> bool \<Rightarrow> string list \<Rightarrow> table \<Rightarrow> doc option \<Rightarrow> string list
     \<Rightarrow> (error + string list) \<times> table \<times> doc option" where
  "load_loop parse strct [] tbl p corrupted = (Inr corrupted, tbl, p)"
| "load_loop parse strct (raw # rest) tbl p corrupted =
     (if raw = [] then load_loop parse strct rest tbl p corrupted
      else (case load_line parse raw tbl p of
              Inr (tbl', p') \<Rightarrow> load_loop parse strct rest tbl' p' corrupted
            | Inl err \<Rightarrow>
                if strct then (Inl err, tbl, p)
                else load_loop parse strct rest tbl p (corrupted @ [raw])))"

text \<open>With a root and no file name, \<^verbatim>\<open>fs.existsSync(null)\<close> is false and
  \<^verbatim>\<open>fs.writeFileSync(null, '')\<close> throws a TypeError.\<close>

definition load :: "parser \<Rightarrow> leafdb \<Rightarrow> disk \<Rightarrow> (error + string list) \<times> leafdb \<times> disk" where
  "load parse db dk =
     (case path_set (root db) of
        None \<Rightarrow> (Inl MemoryModeLoad, db, dk)
      | Some r \<Rightarrow>
          (case path_set (filepath db) of
             None \<Rightarrow> (Inl TypeError, db, dk)
           | Some f \<Rightarrow>
               (case dk f of
                  Some content \<Rightarrow>
                    (case load_loop parse (strict db) (split (CHR 0x0A) content) (data db)
                            (proto db) [] of
                       (res, tbl', p') \<Rightarrow> (res, db\<lparr>data := tbl', proto := p'\<rparr>, dk))
                | None \<Rightarrow> (Inr [], db, dk(f \<mapsto> [])))))"

text \<open>The constructor; \<open>resolve\<close> is \<^verbatim>\<open>path.resolve\<close>. Directories are not modelled.\<close>

definition LeafDB ::
  "parser \<Rightarrow> (string \<Rightarrow> string \<Rightarrow> string) \<Rightarrow> string \<Rightarrow> string option \<Rightarrow> bool \<Rightarrow> bool \<Rightarrow> disk
     \<Rightarrow> error + leafdb \<times> disk" where
  "LeafDB parse resolve name rt autoload strct dk =
     (let db = \<lparr>root = rt, strict = strct, data = [],
                filepath = (case path_set rt of
                          None \<Rightarrow> None
                        | Some r \<Rightarrow> if name = [] then None else Some (resolve r (name @ ''.txt''))),
                proto = None\<rparr>
      in if path_set rt \<noteq> None \<and> autoload
         then (case load parse db dk of
                 (Inl err, db', dk') \<Rightarrow> Inl err
               | (Inr corrupted, db', dk') \<Rightarrow> Inr (db', dk'))
         else Inr (db, dk))"

subsection \<open>insert\<close>

text \<open>
  The first loop of \<^verbatim>\<open>insert\<close>: every candidate is checked, given an \<^verbatim>\<open>_id\<close> when it has
  none, and collected. \<open>n\<close> counts the calls of \<^verbatim>\<open>getUid()\<close> made so far. The candidates of one
  batch are taken to be distinct objects.
\<close>

fun insert_check ::
  "(nat \<Rightarrow> string) \<Rightarrow> table \<Rightarrow> doc option \<Rightarrow> jsval list \<Rightarrow> nat \<Rightarrow> doc list
     \<Rightarrow> error + doc list" where
  "insert_check uid tbl p [] n inserted = Inr inserted"
| "insert_check uid tbl p (JObj d # rest) n inserted =
     (if isInvalidDoc (JObj d) then Inl InvalidDocument
      else
        let d' = (if \<not> truthy (get_prop d ''_id'') then obj_set ''_id'' (JStr (uid n)) d else d);
            n' = (if \<not> truthy (get_prop d ''_id'') then Suc n else n)
        in if to_string_throws (get_prop d' ''_id'') then Inl TypeError
           else if truthy (get_entry tbl p (to_string (get_prop d' ''_id''))) then Inl IdExists
           else insert_check uid tbl p rest n' (inserted @ [d']))"
| "insert_check uid tbl p (v # rest) n inserted = Inl NotAnObject"

text \<open>The second loop: \<^verbatim>\<open>this.data[newDoc._id] = newDoc\<close>.\<close>

fun insert_store :: "doc list \<Rightarrow> table \<Rightarrow> doc option \<Rightarrow> table \<times> doc option" where
  "insert_store [] tbl p = (tbl, p)"
| "insert_store (d # rest) tbl p =
     (case set_entry (to_string (get_prop d ''_id'')) d tbl p of
        (tbl', p') \<Rightarrow> insert_store rest tbl' p')"

fun isArray :: "jsval \<Rightarrow> bool" where
  "isArray (JArr xs) = True"
| "isArray v = False"

text \<open>The result is the value the returned promise resolves with: \<^verbatim>\<open>Promise.resolve()\<close>
  resolves with \<^verbatim>\<open>undefined\<close>.\<close>

definition insert_docs ::
  "stringifier \<Rightarrow> (nat \<Rightarrow> string) \<Rightarrow> leafdb \<Rightarrow> jsval \<Rightarrow> bool \<Rightarrow> disk
     \<Rightarrow> (error + jsval) \<times> leafdb \<times> disk" where
  "insert_docs stringify uid db newDocs persist_opt dk =
     (if \<not> isArray newDocs \<and> \<not> isObject newDocs then (Inl InvalidNewDocs, db, dk)
      else (case insert_check uid (data db) (proto db) (toArray newDocs) 0 [] of
              Inl err \<Rightarrow> (Inl err, db, dk)
            | Inr inserted \<Rightarrow>
                let db' = (case insert_store inserted (data db) (proto db) of
                             (tbl', p') \<Rightarrow> db\<lparr>data := tbl', proto := p'\<rparr>)
                in if persist_opt
                   then (case persist stringify db' (data db') dk of
                           Inl err \<Rightarrow> (Inl err, db', dk)
                         | Inr dk' \<Rightarrow> (Inr JUndefined, db', dk'))
                   else (Inr JUndefined, db', dk)))"

subsection \<open>findById and find\<close>

text \<open>
  \<^verbatim>\<open>objectProject(this.data[key], projection)\<close>. The argument is a document when the table
  has the key; otherwise it is \<^verbatim>\<open>undefined\<close> or an inherited value. The contract of
  \<^verbatim>\<open>objectProject\<close> returns its argument unchanged when there is no field list and says
  nothing about an argument that is not a document with a field list, so that result,
  \<open>absent v fs\<close>, is left open: a value or an exception.
\<close>

definition project_entry ::
  "(jsval \<Rightarrow> string list \<Rightarrow> error + jsval) \<Rightarrow> jsval \<Rightarrow> string list option \<Rightarrow> error + jsval" where
  "project_entry absent entry projection =
     (case entry of
        JObj d \<Rightarrow> Inr (JObj (objectProject d projection))
      | _ \<Rightarrow> (case projection of None \<Rightarrow> Inr entry | Some fs \<Rightarrow> absent entry fs))"

text \<open>The test \<^verbatim>\<open>doc && !doc.$deleted\<close> is made on the projected value.\<close>

fun findById_loop ::
  "(jsval \<Rightarrow> string list \<Rightarrow> error + jsval) \<Rightarrow> table \<Rightarrow> doc option \<Rightarrow> string list option
     \<Rightarrow> jsval list \<Rightarrow> jsval list \<Rightarrow> error + jsval list" where
  "findById_loop absent tbl p projection [] payload = Inr payload"
| "findById_loop absent tbl p projection (key # keys) payload =
     (case id_string key of
        None \<Rightarrow> Inl InvalidId
      | Some k \<Rightarrow>
          (case project_entry absent (get_entry tbl p k) projection of
             Inl err \<Rightarrow> Inl err
           | Inr doc \<Rightarrow>
               findById_loop absent tbl p projection keys
                 (if kept doc then payload @ [doc] else payload)))"

definition findById ::
  "(jsval \<Rightarrow> string list \<Rightarrow> error + jsval) \<Rightarrow> leafdb \<Rightarrow> jsval \<Rightarrow> string list option
     \<Rightarrow> error + jsval list" where
  "findById absent db ident projection =
     findById_loop absent (data db) (proto db) projection (toArray ident) []"

fun find_loop :: "matcher \<Rightarrow> jsval \<Rightarrow> string list option \<Rightarrow> doc list \<Rightarrow> jsval list \<Rightarrow> jsval list" where
  "find_loop isQueryMatch query projection [] payload = payload"
| "find_loop isQueryMatch query projection (d # docs) payload =
     find_loop isQueryMatch query projection docs
       (if \<not> tombstoned d \<and> isQueryMatch d query
        then payload @ [JObj (objectProject d projection)] else payload)"

definition find_docs ::
  "matcher \<Rightarrow> leafdb \<Rightarrow> jsval \<Rightarrow> string list option \<Rightarrow> error + jsval list" where
  "find_docs isQueryMatch db query projection =
     (if \<not> truthy query \<or> \<not> isObject query then Inl InvalidQuery
      else if isEmptyObject query
      then Inr (map (\<lambda>d. JObj (objectProject d projection)) (map snd (data db)))
      else Inr (find_loop isQueryMatch query projection (map snd (data db)) []))"

subsection \<open>updateById and update\<close>

definition invalid_update :: "jsval \<Rightarrow> bool" where
  "invalid_update upd =
     (case upd of
        JObj u \<Rightarrow> truthy (get_prop u ''_id'') \<or> hasMixedModifiers upd
                  \<or> (\<not> hasModifiers upd \<and> isInvalidDoc upd)
      | _ \<Rightarrow> True)"

text \<open>\<^verbatim>\<open>hasModifiers(update) ? objectModify(doc, update) : update\<close>, then
  \<^verbatim>\<open>{ ...newDoc, _id: key }\<close>. The update has passed \<open>invalid_update\<close>: it is an object.
  \<open>doc\<close> is what the key found in the table: a document, or an inherited value.\<close>

definition new_doc :: "modifier \<Rightarrow> jsval \<Rightarrow> jsval \<Rightarrow> string \<Rightarrow> error + doc" where
  "new_doc objectModify upd doc key =
     (case (if hasModifiers upd then objectModify doc upd else Inr (spread upd)) of
        Inl err \<Rightarrow> Inl err
      | Inr newDoc \<Rightarrow> Inr (obj_set ''_id'' (JStr key) newDoc))"

fun updateById_loop ::
  "modifier \<Rightarrow> jsval \<Rightarrow> string list option \<Rightarrow> jsval list \<Rightarrow> table \<Rightarrow> doc option \<Rightarrow> jsval list
     \<Rightarrow> (error + jsval list) \<times> table \<times> doc option" where
  "updateById_loop objectModify upd projection [] tbl p payload = (Inr payload, tbl, p)"
| "updateById_loop objectModify upd projection (key # keys) tbl p payload =
     (case id_string key of
        None \<Rightarrow> (Inl InvalidId, tbl, p)
      | Some k \<Rightarrow>
          if kept (get_entry tbl p k)
          then (case new_doc objectModify upd (get_entry tbl p k) k of
                  Inl err \<Rightarrow> (Inl err, tbl, p)
                | Inr nd \<Rightarrow>
                    (case set_entry k nd tbl p of
                       (tbl', p') \<Rightarrow>
                         updateById_loop objectModify upd projection keys tbl' p'
                           (payload @ [JObj (objectProject nd projection)])))
          else updateById_loop objectModify upd projection keys tbl p payload)"

definition updateById ::
  "modifier \<Rightarrow> leafdb \<Rightarrow> jsval \<Rightarrow> jsval \<Rightarrow> string list option \<Rightarrow> (error + jsval list) \<times> leafdb" where
  "updateById objectModify db ident upd projection =
     (if invalid_update upd then (Inl InvalidUpdate, db)
      else (case updateById_loop objectModify upd projection (toArray ident) (data db)
                   (proto db) [] of
              (res, tbl', p') \<Rightarrow> (res, db\<lparr>data := tbl', proto := p'\<rparr>)))"

text \<open>
  The loops of \<^verbatim>\<open>update\<close> and \<^verbatim>\<open>delete\<close> run over \<^verbatim>\<open>Object.keys(this.data)\<close>, the own keys
  that the table had when the loop started. No method removes a property of the table, so
  \<^verbatim>\<open>this.data[_id]\<close> is the own entry of the key, and the assignment to it replaces that
  entry. The branch for a key without an entry is there to make the function total: it is
  not taken from \<open>update\<close> or \<open>delete\<close>, since an assignment keeps every key of the table
  (\<open>keys_obj_set\<close>).
\<close>

fun update_loop ::
  "matcher \<Rightarrow> modifier \<Rightarrow> jsval \<Rightarrow> jsval \<Rightarrow> string list option \<Rightarrow> string list \<Rightarrow> table
     \<Rightarrow> jsval list \<Rightarrow> (error + jsval list) \<times> table" where
  "update_loop isQueryMatch objectModify query upd projection [] tbl payload = (Inr payload, tbl)"
| "update_loop isQueryMatch objectModify query upd projection (k # ks) tbl payload =
     (case map_of tbl k of
        None \<Rightarrow> (Inl TypeError, tbl)
      | Some d \<Rightarrow>
          if \<not> tombstoned d \<and> isQueryMatch d query
          then (case new_doc objectModify upd (JObj d) k of
                  Inl err \<Rightarrow> (Inl err, tbl)
                | Inr nd \<Rightarrow>
                    update_loop isQueryMatch objectModify query upd projection ks
                      (obj_set k nd tbl) (payload @ [JObj (objectProject nd projection)]))
          else update_loop isQueryMatch objectModify query upd projection ks tbl payload)"

definition update ::
  "matcher \<Rightarrow> modifier \<Rightarrow> leafdb \<Rightarrow> jsval \<Rightarrow> jsval \<Rightarrow> string list option
     \<Rightarrow> (error + jsval list) \<times> leafdb" where
  "update isQueryMatch objectModify db query upd projection =
     (if \<not> isObject query then (Inl InvalidQuery, db)
      else if invalid_update upd then (Inl InvalidUpdate, db)
      else (case update_loop isQueryMatch objectModify query upd projection
                   (map fst (data db)) (data db) [] of
              (res, tbl') \<Rightarrow> (res, db\<lparr>data := tbl'\<rparr>)))"

subsection \<open>deleteById, delete and drop\<close>

text \<open>\<^verbatim>\<open>{ ...doc, $deleted: true }\<close> is stored under the key, whatever the key found.\<close>

fun deleteById_loop ::
  "jsval list \<Rightarrow> table \<Rightarrow> doc option \<Rightarrow> nat \<Rightarrow> (error + nat) \<times> table \<times> doc option" where
  "deleteById_loop [] tbl p deleted = (Inr deleted, tbl, p)"
| "deleteById_loop (key # keys) tbl p deleted =
     (case id_string key of
        None \<Rightarrow> (Inl InvalidId, tbl, p)
      | Some k \<Rightarrow>
          if kept (get_entry tbl p k)
          then (case set_entry k (obj_set ''$deleted'' (JBool True) (spread (get_entry tbl p k)))
                       tbl p of
                  (tbl', p') \<Rightarrow> deleteById_loop keys tbl' p' (deleted + 1))
          else deleteById_loop keys tbl p deleted)"

definition deleteById :: "leafdb \<Rightarrow> jsval \<Rightarrow> (error + nat) \<times> leafdb" where
  "deleteById db ident =
     (case deleteById_loop (toArray ident) (data db) (proto db) 0 of
        (res, tbl', p') \<Rightarrow> (res, db\<lparr>data := tbl', proto := p'\<rparr>))"

fun delete_loop :: "matcher \<Rightarrow> jsval \<Rightarrow> string list \<Rightarrow> table \<Rightarrow> nat \<Rightarrow> (error + nat) \<times> table" where
  "delete_loop isQueryMatch query [] tbl removed = (Inr removed, tbl)"
| "delete_loop isQueryMatch query (k # ks) tbl removed =
     (case map_of tbl k of
        None \<Rightarrow> (Inl TypeError, tbl)
      | Some d \<Rightarrow>
          if \<not> tombstoned d \<and> isQueryMatch d query
          then delete_loop isQueryMatch query ks
                 (obj_set k (obj_set ''$deleted'' (JBool True) d) tbl) (removed + 1)
          else delete_loop isQueryMatch query ks tbl removed)"

definition delete :: "matcher \<Rightarrow> leafdb \<Rightarrow> jsval \<Rightarrow> (error + nat) \<times> leafdb" where
  "delete isQueryMatch db query =
     (if \<not> isObject query then (Inl InvalidQuery, db)
      else (case delete_loop isQueryMatch query (map fst (data db)) (data db) 0 of
              (res, tbl') \<Rightarrow> (res, db\<lparr>data := tbl'\<rparr>)))"

text \<open>\<^verbatim>\<open>this.data = {}\<close> is a new object: its prototype is \<^verbatim>\<open>Object.prototype\<close> again.\<close>

definition drop_db :: "stringifier \<Rightarrow> leafdb \<Rightarrow> disk \<Rightarrow> (error + unit) \<times> leafdb \<times> disk" where
  "drop_db stringify db dk =
     (let db' = db\<lparr>data := [], proto := None\<rparr>
      in (case path_set (filepath db') of
            None \<Rightarrow> (Inr (), db', dk)
          | Some f \<Rightarrow>
              (case persist stringify db' (data db') dk of
                 Inl err \<Rightarrow> (Inl err, db', dk)
               | Inr dk' \<Rightarrow> (Inr (), db', dk'))))"

section \<open>JSON\<close>

text \<open>
  \<^verbatim>\<open>JSON.stringify\<close> and \<^verbatim>\<open>JSON.parse\<close> on the values of the model, to run \<open>persist\<close> and
  \<open>load\<close> on concrete tables. Characters are the code points up to U+00FF and numbers are
  integers: the parser reports a \<^verbatim>\<open>\u\<close> escape above U+00FF, a fraction or an exponent
  as \<open>Thrown\<close>, apart from the syntax errors of JSON.
\<close>

definition hex_digit :: "nat \<Rightarrow> char" where
  "hex_digit n = (if n < 10 then char_of (48 + n) else char_of (87 + n))"

text \<open>\<^verbatim>\<open>QuoteJSONString\<close>.\<close>

fun json_escape :: "string \<Rightarrow> string" where
  "json_escape [] = []"
| "json_escape (c # r) =
     (if c = CHR 0x22 then CHR 0x5C # CHR 0x22 # json_escape r
      else if c = CHR 0x5C then CHR 0x5C # CHR 0x5C # json_escape r
      else if c = CHR 0x08 then CHR 0x5C # CHR ''b'' # json_escape r
      else if c = CHR 0x09 then CHR 0x5C # CHR ''t'' # json_escape r
      else if c = CHR 0x0A then CHR 0x5C # CHR ''n'' # json_escape r
      else if c = CHR 0x0C then CHR 0x5C # CHR ''f'' # json_escape r
      else if c = CHR 0x0D then CHR 0x5C # CHR ''r'' # json_escape r
      else if (of_char c :: nat) < 32
      then CHR 0x5C # CHR ''u'' # CHR ''0'' # CHR ''0''
             # hex_digit (of_char c div 16) # hex_digit (of_char c mod 16) # json_escape r
      else c # json_escape r)"

definition json_quote :: "string \<Rightarrow> string" where
  "json_quote s = CHR 0x22 # json_escape s @ [CHR 0x22]"

text \<open>\<^verbatim>\<open>SerializeJSONProperty\<close>: \<open>None\<close> is \<^verbatim>\<open>undefined\<close>, which is also what a function
  gives. A property whose value is \<^verbatim>\<open>undefined\<close> is left out of an object and written
  \<^verbatim>\<open>null\<close> in an array.\<close>

fun json_value :: "jsval \<Rightarrow> string option"
  and json_elems :: "jsval list \<Rightarrow> string list"
  and json_members :: "(string \<times> jsval) list \<Rightarrow> string list" where
  "json_value JUndefined = None"
| "json_value JNull = Some ''null''"
| "json_value (JBool b) = Some (if b then ''true'' else ''false'')"
| "json_value (JNum n) = Some (show_int n)"
| "json_value (JStr s) = Some (json_quote s)"
| "json_value (JArr xs) = Some (''['' @ join '','' (json_elems xs) @ '']'')"
| "json_value (JObj ps) = Some (''{'' @ join '','' (json_members ps) @ ''}'')"
| "json_value (JBuiltin n) = (if n = ''__proto__'' then Some ''{}'' else None)"
| "json_elems [] = []"
| "json_elems (x # xs) =
     (case json_value x of None \<Rightarrow> ''null'' | Some s \<Rightarrow> s) # json_elems xs"
| "json_members [] = []"
| "json_members ((k, v) # ps) =
     (case json_value v of
        None \<Rightarrow> json_members ps
      | Some s \<Rightarrow> (json_quote k @ '':'' @ s) # json_members ps)"

text \<open>As a line of the payload: \<^verbatim>\<open>join\<close> writes \<^verbatim>\<open>undefined\<close> as the empty string.\<close>

definition json_stringify :: stringifier where
  "json_stringify v = Inr (case json_value v of None \<Rightarrow> [] | Some s \<Rightarrow> s)"

definition is_ws :: "char \<Rightarrow> bool" where
  "is_ws c = (c \<in> set [CHR 0x20, CHR 0x09, CHR 0x0A, CHR 0x0D])"

definition skip_ws :: "string \<Rightarrow> string" where
  "skip_ws s = dropWhile is_ws s"

definition hex_val :: "char \<Rightarrow> nat option" where
  "hex_val c =
     (let n = (of_char c :: nat)
      in if 48 \<le> n \<and> n \<le> 57 then Some (n - 48)
         else if 97 \<le> n \<and> n \<le> 102 then Some (n - 87)
         else if 65 \<le> n \<and> n \<le> 70 then Some (n - 55)
         else None)"

definition hex4 :: "char \<Rightarrow> char \<Rightarrow> char \<Rightarrow> char \<Rightarrow> nat option" where
  "hex4 a b c d =
     (case (hex_val a, hex_val b, hex_val c, hex_val d) of
        (Some w, Some x, Some y, Some z) \<Rightarrow> Some (((w * 16 + x) * 16 + y) * 16 + z)
      | _ \<Rightarrow> None)"

definition unescape :: "char \<Rightarrow> char option" where
  "unescape e =
     (if e = CHR 0x22 \<or> e = CHR 0x5C \<or> e = CHR ''/'' then Some e
      else if e = CHR ''b'' then Some (CHR 0x08)
      else if e = CHR ''t'' then Some (CHR 0x09)
      else if e = CHR ''n'' then Some (CHR 0x0A)
      else if e = CHR ''f'' then Some (CHR 0x0C)
      else if e = CHR ''r'' then Some (CHR 0x0D)
      else None)"

text \<open>The characters of a string literal, after its opening quote: the string (built in
  reverse in \<open>acc\<close>) and the input after the closing quote.\<close>

fun parse_chars :: "string \<Rightarrow> string \<Rightarrow> error + string \<times> string" where
  "parse_chars acc [] = Inl SyntaxError"
| "parse_chars acc [c] = (if c = CHR 0x22 then Inr (rev acc, []) else Inl SyntaxError)"
| "parse_chars acc (c # e # r) =
     (if c = CHR 0x22 then Inr (rev acc, e # r)
      else if c = CHR 0x5C
      then (if e = CHR ''u''
            then (case r of
                    a # b # x # d # r' \<Rightarrow>
                      (case hex4 a b x d of
                         None \<Rightarrow> Inl SyntaxError
                       | Some n \<Rightarrow>
                           if n < 256 then parse_chars (char_of n # acc) r'
                           else Inl (Thrown ''code point above U+00FF''))
                  | _ \<Rightarrow> Inl SyntaxError)
            else (case unescape e of
                    None \<Rightarrow> Inl SyntaxError
                  | Some x \<Rightarrow> parse_chars (x # acc) r))
      else if (of_char c :: nat) < 32 then Inl SyntaxError
      else parse_chars (c # acc) (e # r))"

text \<open>A number: an optional minus sign, then \<^verbatim>\<open>0\<close> or a digit from 1 to 9 followed by
  digits.\<close>

definition parse_digits :: "string \<Rightarrow> error + nat \<times> string" where
  "parse_digits s =
     (case s of
        [] \<Rightarrow> Inl SyntaxError
      | c # r \<Rightarrow>
          if \<not> is_digit c then Inl SyntaxError
          else
            let ds = (if c = CHR ''0'' then [c] else takeWhile is_digit s);
                rest = (if c = CHR ''0'' then r else dropWhile is_digit s)
            in (case rest of
                  [] \<Rightarrow> Inr (digits_val ds, rest)
                | x # r' \<Rightarrow>
                    if x = CHR ''.'' \<or> x = CHR ''e'' \<or> x = CHR ''E''
                    then Inl (Thrown ''fraction or exponent'')
                    else Inr (digits_val ds, rest)))"

definition parse_number :: "string \<Rightarrow> error + jsval \<times> string" where
  "parse_number s =
     (case s of
        [] \<Rightarrow> Inl SyntaxError
      | c # r \<Rightarrow>
          if c = CHR ''-''
          then (case parse_digits r of
                  Inl err \<Rightarrow> Inl err
                | Inr (n, rest) \<Rightarrow> Inr (JNum (- int n), rest))
          else (case parse_digits s of
                  Inl err \<Rightarrow> Inl err
                | Inr (n, rest) \<Rightarrow> Inr (JNum (int n), rest)))"

definition parse_word :: "string \<Rightarrow> jsval \<Rightarrow> string \<Rightarrow> error + jsval \<times> string" where
  "parse_word w v s =
     (if take (length w) s = w then Inr (v, List.drop (length w) s) else Inl SyntaxError)"

text \<open>
  The recursive descent. The first argument bounds the number of calls still allowed;
  \<open>OutOfFuel\<close> tells a bound that was too small from an error of the input.
  \<open>parse_elems\<close> reads the elements of an array after \<^verbatim>\<open>[\<close> or a comma, \<open>parse_members\<close> the
  members of an object after \<^verbatim>\<open>{\<close> or a comma; a repeated key keeps its first place and
  takes the last value.
\<close>

fun parse_value :: "nat \<Rightarrow> string \<Rightarrow> error + jsval \<times> string"
  and parse_elems :: "nat \<Rightarrow> jsval list \<Rightarrow> string \<Rightarrow> error + jsval list \<times> string"
  and parse_members :: "nat \<Rightarrow> doc \<Rightarrow> string \<Rightarrow> error + doc \<times> string" where
  "parse_value 0 s = Inl OutOfFuel"
| "parse_value (Suc n) s =
     (case skip_ws s of
        [] \<Rightarrow> Inl SyntaxError
      | c # r \<Rightarrow>
          if c = CHR ''{''
          then (case skip_ws r of
                  [] \<Rightarrow> Inl SyntaxError
                | x # r' \<Rightarrow>
                    if x = CHR ''}'' then Inr (JObj [], r')
                    else (case parse_members n [] r of
                            Inl err \<Rightarrow> Inl err
                          | Inr (ps, rest) \<Rightarrow> Inr (JObj ps, rest)))
          else if c = CHR ''[''
          then (case skip_ws r of
                  [] \<Rightarrow> Inl SyntaxError
                | x # r' \<Rightarrow>
                    if x = CHR '']'' then Inr (JArr [], r')
                    else (case parse_elems n [] r of
                            Inl err \<Rightarrow> Inl err
                          | Inr (xs, rest) \<Rightarrow> Inr (JArr xs, rest)))
          else if c = CHR 0x22
          then (case parse_chars [] r of
                  Inl err \<Rightarrow> Inl err
                | Inr (str, rest) \<Rightarrow> Inr (JStr str, rest))
          else if c = CHR ''t'' then parse_word ''true'' (JBool True) (c # r)
          else if c = CHR ''f'' then parse_word ''false'' (JBool False) (c # r)
          else if c = CHR ''n'' then parse_word ''null'' JNull (c # r)
          else parse_number (c # r))"
| "parse_elems 0 acc s = Inl OutOfFuel"
| "parse_elems (Suc n) acc s =
     (case parse_value n s of
        Inl err \<Rightarrow> Inl err
      | Inr (v, r) \<Rightarrow>
          (case skip_ws r of
             [] \<Rightarrow> Inl SyntaxError
           | c # r' \<Rightarrow>
               if c = CHR '','' then parse_elems n (acc @ [v]) r'
               else if c = CHR '']'' then Inr (acc @ [v], r')
               else Inl SyntaxError))"
| "parse_members 0 acc s = Inl OutOfFuel"
| "parse_members (Suc n) acc s =
     (case skip_ws s of
        [] \<Rightarrow> Inl SyntaxError
      | q # r \<Rightarrow>
          if q \<noteq> CHR 0x22 then Inl SyntaxError
          else (case parse_chars [] r of
                  Inl err \<Rightarrow> Inl err
                | Inr (k, r1) \<Rightarrow>
                    (case skip_ws r1 of
                       [] \<Rightarrow> Inl SyntaxError
                     | colon # r2 \<Rightarrow>
                         if colon \<noteq> CHR '':'' then Inl SyntaxError
                         else (case parse_value n r2 of
                                 Inl err \<Rightarrow> Inl err
                               | Inr (v, r3) \<Rightarrow>
                                   (case skip_ws r3 of
                                      [] \<Rightarrow> Inl SyntaxError
                                    | c # r4 \<Rightarrow>
                                        if c = CHR '','' then parse_members n (obj_set k v acc) r4
                                        else if c = CHR ''}'' then Inr (obj_set k v acc, r4)
                                        else Inl SyntaxError)))))"

definition json_parse :: parser where
  "json_parse s =
     (case parse_value (Suc (length s)) s of
        Inl err \<Rightarrow> Inl err
      | Inr (v, rest) \<Rightarrow> if skip_ws rest = [] then Inr v else Inl SyntaxError)"

section \<open>Invariants and example instances\<close>

text \<open>
  \<open>ids_agree R tbl\<close>: every entry of the table relates its key to the \<^verbatim>\<open>_id\<close> of the
  document stored under it. \<open>id_equals_key\<close> asks the \<^verbatim>\<open>_id\<close> to be the key itself, a string;
  \<open>id_names_key\<close> asks the \<^verbatim>\<open>_id\<close> to convert to the key.
\<close>

definition ids_agree :: "(string \<Rightarrow> jsval \<Rightarrow> bool) \<Rightarrow> table \<Rightarrow> bool" where
  "ids_agree R tbl = list_all (\<lambda>(k, d). R k (get_prop d ''_id'')) tbl"

definition id_equals_key :: "table \<Rightarrow> bool" where
  "id_equals_key tbl = ids_agree (\<lambda>k v. v = JStr k) tbl"

definition id_names_key :: "table \<Rightarrow> bool" where
  "id_names_key tbl = ids_agree (\<lambda>k v. to_string v = k) tbl"

text \<open>The table has an entry for \<open>k\<close> and its document carries \<open>k\<close> as \<^verbatim>\<open>_id\<close>.\<close>

definition stamped :: "table \<Rightarrow> string \<Rightarrow> bool" where
  "stamped tbl k =
     (case map_of tbl k of None \<Rightarrow> False | Some d \<Rightarrow> get_prop d ''_id'' = JStr k)"

text \<open>An \<^verbatim>\<open>_id\<close> that is a string, or one that \<^verbatim>\<open>insert\<close> replaces by a generated string.\<close>

fun string_id :: "jsval \<Rightarrow> bool" where
  "string_id (JStr s) = True"
| "string_id v = (\<not> truthy v)"

fun candidate_string_id :: "jsval \<Rightarrow> bool" where
  "candidate_string_id (JObj d) = string_id (get_prop d ''_id'')"
| "candidate_string_id v = True"

definition line_string_id :: "parser \<Rightarrow> string \<Rightarrow> bool" where
  "line_string_id parse raw =
     (case parse (replace_backslash raw) of
        Inr v \<Rightarrow> candidate_string_id v
      | Inl err \<Rightarrow> True)"

text \<open>The lines that \<open>load\<close> reads.\<close>

definition file_lines :: "leafdb \<Rightarrow> disk \<Rightarrow> string list" where
  "file_lines db dk =
     (case path_set (filepath db) of
        None \<Rightarrow> []
      | Some f \<Rightarrow> (case dk f of None \<Rightarrow> [] | Some content \<Rightarrow> split (CHR 0x0A) content))"

text \<open>The live documents of a table, in enumeration order.\<close>

definition live_docs :: "table \<Rightarrow> doc list" where
  "live_docs tbl = filter (\<lambda>d. \<not> tombstoned d) (map snd tbl)"

text \<open>\<^verbatim>\<open>new LeafDB('db')\<close> and \<^verbatim>\<open>new LeafDB('db', { root: 'r', autoload: false })\<close>.\<close>

definition memory_db :: leafdb where
  "memory_db = \<lparr>root = None, strict = False, data = [], filepath = None, proto = None\<rparr>"

definition file_db :: leafdb where
  "file_db =
     \<lparr>root = Some ''r'', strict = False, data = [], filepath = Some ''r/db.txt'', proto = None\<rparr>"

text \<open>A table with one live document, and the same table after the document is deleted.\<close>

definition db_one :: leafdb where
  "db_one = memory_db\<lparr>data := [(''a'', [(''_id'', JStr ''a''), (''name'', JStr ''n'')])]\<rparr>"

definition db_gone :: leafdb where
  "db_gone = memory_db\<lparr>data :=
     [(''a'', [(''_id'', JStr ''a''), (''name'', JStr ''n''), (''$deleted'', JBool True)])]\<rparr>"

text \<open>What the identifiers of a list find in the table and keep, in the order of the list.\<close>

definition found :: "table \<Rightarrow> doc option \<Rightarrow> jsval list \<Rightarrow> jsval list" where
  "found tbl p keys =
     concat (map (\<lambda>key. case id_string key of
                          None \<Rightarrow> []
                        | Some k \<Rightarrow>
                            if kept (get_entry tbl p k) then [get_entry tbl p k] else []) keys)"

text \<open>
  An identifier that has an entry of its own in the table, or else finds nothing that
  \<^verbatim>\<open>deleteById\<close> would tombstone along the prototype chain (no inherited value that passes
  \<^verbatim>\<open>doc && !doc.$deleted\<close>). A malformed identifier counts: the loop stops at it.
\<close>

definition targets_own :: "table \<Rightarrow> doc option \<Rightarrow> jsval \<Rightarrow> bool" where
  "targets_own tbl p key =
     (case id_string key of
        None \<Rightarrow> True
      | Some k \<Rightarrow> (case map_of tbl k of Some d \<Rightarrow> True | None \<Rightarrow> \<not> kept (inherited p k)))"

text \<open>Successful serialisations, in order: what a non-strict \<open>persist\<close> writes.\<close>

definition serialized :: "stringifier \<Rightarrow> doc list \<Rightarrow> string list" where
  "serialized stringify ds =
     concat (map (\<lambda>d. case stringify (JObj d) of Inr s \<Rightarrow> [s] | Inl err \<Rightarrow> []) ds)"

text \<open>\<^verbatim>\<open>JSON.stringify\<close> of a document.\<close>

definition json_doc :: "doc \<Rightarrow> string" where
  "json_doc d = ''{'' @ join '','' (json_members d) @ ''}''"

text \<open>
  A table whose document holds a string with a double quote, and one whose document
  holds a string with a line feed; \<open>quote_line\<close> and \<open>newline_line\<close> are the lines that
  \<open>persist\<close> writes for them.
\<close>

definition quote_table :: table where
  "quote_table = [(''a'', [(''_id'', JStr ''a''), (''s'', JStr [CHR 0x22])])]"

definition quote_line :: string where
  "quote_line =
     ''{'' @ [CHR 0x22] @ ''_id'' @ [CHR 0x22] @ '':'' @ [CHR 0x22] @ ''a'' @ [CHR 0x22] @ '',''
       @ [CHR 0x22] @ ''s'' @ [CHR 0x22] @ '':'' @ [CHR 0x22, CHR 0x5C, CHR 0x22, CHR 0x22] @ ''}''"

definition newline_table :: table where
  "newline_table = [(''a'', [(''_id'', JStr ''a''), (''s'', JStr [CHR 0x0A])])]"

definition newline_line :: string where
  "newline_line =
     ''{'' @ [CHR 0x22] @ ''_id'' @ [CHR 0x22] @ '':'' @ [CHR 0x22] @ ''a'' @ [CHR 0x22] @ '',''
       @ [CHR 0x22] @ ''s'' @ [CHR 0x22] @ '':'' @ [CHR 0x22, CHR 0x5C, CHR ''n'', CHR 0x22] @ ''}''"

section \<open>Objects and tables\<close>

lemma map_of_obj_add:
  "map_of ob k = None \<Longrightarrow> map_of (obj_add k v ob) k' = (if k' = k then Some v else map_of ob k')"
  by (induction ob) (auto split: if_splits)

lemma map_of_obj_replace:
  "map_of (obj_replace k v ob) k' =
     (if k' = k \<and> map_of ob k \<noteq> None then Some v else map_of ob k')"
  by (induction ob) auto

lemma map_of_obj_set:
  "map_of (obj_set k v ob) k' = (if k' = k then Some v else map_of ob k')"
  by (auto simp: obj_set_def map_of_obj_add map_of_obj_replace)

lemma get_prop_obj_set:
  "get_prop (obj_set k v d) k' = (if k' = k then v else get_prop d k')"
  by (simp add: get_prop_def map_of_obj_set)

lemma set_obj_add: "set (obj_add k v ob) = insert (k, v) (set ob)"
  by (induction ob) (auto split: if_splits)

lemma set_obj_replace: "set (obj_replace k v ob) \<subseteq> insert (k, v) (set ob)"
  by (induction ob) (auto split: if_splits)

lemma set_obj_set: "set (obj_set k v ob) \<subseteq> insert (k, v) (set ob)"
  using set_obj_replace [of k v ob] by (auto simp: obj_set_def set_obj_add)

lemma list_all_obj_set:
  "P (k, v) \<Longrightarrow> list_all P ob \<Longrightarrow> list_all P (obj_set k v ob)"
  using set_obj_set [of k v ob] by (auto simp: list_all_iff)

text \<open>An assignment removes no key: the keys of the table only grow.\<close>

lemma keys_obj_replace: "map fst (obj_replace k v ob) = map fst ob"
  by (induction ob) auto

lemma keys_obj_set: "set (map fst (obj_set k v ob)) = insert k (set (map fst ob))"
proof (cases "map_of ob k")
  case None
  then show ?thesis by (simp add: obj_set_def set_obj_add)
next
  case (Some d)
  then have "k \<in> set (map fst ob)"
    by (auto dest: map_of_SomeD intro: rev_image_eqI)
  then show ?thesis using Some by (auto simp: obj_set_def keys_obj_replace)
qed

lemma get_entry_own: "map_of tbl k = Some d \<Longrightarrow> get_entry tbl p k = JObj d"
  by (simp add: get_entry_def)

lemma get_entry_none: "map_of tbl k = None \<Longrightarrow> get_entry tbl p k = inherited p k"
  by (simp add: get_entry_def)

lemma set_entry_own: "map_of tbl k = Some d0 \<Longrightarrow> set_entry k d tbl p = (obj_set k d tbl, p)"
  by (simp add: set_entry_def)

lemma set_entry_cases:
  "set_entry k d tbl p = (obj_set k d tbl, p) \<or> set_entry k d tbl p = (tbl, Some d)"
  by (simp add: set_entry_def)

lemma map_of_set_entry_other:
  "k' \<noteq> k \<Longrightarrow> map_of (fst (set_entry k d tbl p)) k' = map_of tbl k'"
  by (simp add: set_entry_def map_of_obj_set)

lemma ids_agree_obj_set:
  "R k (get_prop d ''_id'') \<Longrightarrow> ids_agree R tbl \<Longrightarrow> ids_agree R (obj_set k d tbl)"
  unfolding ids_agree_def by (rule list_all_obj_set) simp_all

lemma ids_agree_set_entry:
  "R k (get_prop d ''_id'') \<Longrightarrow> ids_agree R tbl \<Longrightarrow> ids_agree R (fst (set_entry k d tbl p))"
  using set_entry_cases [of k d tbl p] by (auto intro: ids_agree_obj_set)

lemma ids_agree_lookup:
  "ids_agree R tbl \<Longrightarrow> map_of tbl k = Some d \<Longrightarrow> R k (get_prop d ''_id'')"
  unfolding ids_agree_def list_all_iff by (auto dest: map_of_SomeD)

lemma id_string_Some: "id_string key = Some k \<Longrightarrow> key = JStr k"
  by (cases key) (auto split: if_splits)

section \<open>The loops of the store\<close>

lemma new_doc_id: "new_doc om upd doc k = Inr nd \<Longrightarrow> get_prop nd ''_id'' = JStr k"
  by (auto simp: new_doc_def get_prop_obj_set split: sum.splits if_splits)

lemma string_id_truthy: "string_id v \<Longrightarrow> truthy v \<Longrightarrow> v = JStr (to_string v)"
  by (cases v) auto

subsection \<open>Agreement of keys and identifiers\<close>

lemma updateById_loop_agree:
  "(\<And>k. R k (JStr k)) \<Longrightarrow> ids_agree R tbl \<Longrightarrow>
   ids_agree R (fst (snd (updateById_loop om upd proj keys tbl p payload)))"
proof (induction keys arbitrary: tbl p payload)
  case Nil
  then show ?case by simp
next
  case (Cons key keys)
  show ?case
  proof (cases "id_string key")
    case None
    then show ?thesis using Cons.prems by simp
  next
    case (Some k)
    note k = this
    show ?thesis
    proof (cases "kept (get_entry tbl p k)")
      case False
      then show ?thesis using k Cons by simp
    next
      case True
      show ?thesis
      proof (cases "new_doc om upd (get_entry tbl p k) k")
        case (Inl e)
        then show ?thesis using k True Cons.prems by simp
      next
        case (Inr nd)
        obtain tbl' p' where st: "set_entry k nd tbl p = (tbl', p')"
          by (cases "set_entry k nd tbl p")
        have "ids_agree R (fst (set_entry k nd tbl p))"
          using Cons.prems new_doc_id [OF Inr] by (intro ids_agree_set_entry) simp_all
        then have "ids_agree R tbl'" using st by simp
        then show ?thesis
          using k True Inr st Cons.IH Cons.prems(1) by simp
      qed
    qed
  qed
qed

lemma update_loop_agree:
  "(\<And>k. R k (JStr k)) \<Longrightarrow> ids_agree R tbl \<Longrightarrow>
   ids_agree R (snd (update_loop m om q upd proj ks tbl payload))"
proof (induction ks arbitrary: tbl payload)
  case Nil
  then show ?case by simp
next
  case (Cons k ks)
  show ?case
  proof (cases "map_of tbl k")
    case None
    then show ?thesis using Cons.prems by simp
  next
    case (Some d)
    show ?thesis
    proof (cases "\<not> tombstoned d \<and> m d q")
      case False
      then show ?thesis using Some Cons by auto
    next
      case True
      show ?thesis
      proof (cases "new_doc om upd (JObj d) k")
        case (Inl e)
        then show ?thesis using Some True Cons.prems by simp
      next
        case (Inr nd)
        have "ids_agree R (obj_set k nd tbl)"
          using Cons.prems new_doc_id [OF Inr] by (intro ids_agree_obj_set) simp_all
        then show ?thesis using Some True Inr Cons.IH Cons.prems(1) by simp
      qed
    qed
  qed
qed

lemma tombstone_agree:
  "ids_agree R tbl \<Longrightarrow> map_of tbl k = Some d \<Longrightarrow>
   ids_agree R (obj_set k (obj_set ''$deleted'' (JBool True) d) tbl)"
  by (rule ids_agree_obj_set) (auto simp: get_prop_obj_set dest: ids_agree_lookup)

lemma targets_own_obj_set:
  "targets_own tbl p key \<Longrightarrow> targets_own (obj_set k d tbl) p key"
  by (auto simp: targets_own_def map_of_obj_set split: option.splits)

lemma deleteById_loop_agree:
  "list_all (targets_own tbl p) keys \<Longrightarrow> ids_agree R tbl \<Longrightarrow>
   ids_agree R (fst (snd (deleteById_loop keys tbl p n)))"
proof (induction keys arbitrary: tbl n)
  case Nil
  then show ?case by simp
next
  case (Cons key keys)
  have rest: "list_all (targets_own tbl p) keys"
    using Cons.prems(1) by simp
  show ?case
  proof (cases "id_string key")
    case None
    then show ?thesis using Cons.prems by simp
  next
    case (Some k)
    note k = this
    show ?thesis
    proof (cases "map_of tbl k")
      case None
      then have "\<not> kept (get_entry tbl p k)"
        using Cons.prems(1) k by (simp add: targets_own_def get_entry_none)
      then show ?thesis using k rest Cons.prems(2) Cons.IH by simp
    next
      case (Some d)
      note d = this
      show ?thesis
      proof (cases "tombstoned d")
        case True
        then show ?thesis using k d rest Cons.prems(2) Cons.IH by (simp add: get_entry_own)
      next
        case False
        let ?tbl = "obj_set k (obj_set ''$deleted'' (JBool True) d) tbl"
        have "list_all (targets_own ?tbl p) keys"
          using rest by (auto simp: list_all_iff intro: targets_own_obj_set)
        moreover have "ids_agree R ?tbl"
          by (rule tombstone_agree [OF Cons.prems(2) d])
        ultimately have "ids_agree R (fst (snd (deleteById_loop keys ?tbl p (n + 1))))"
          by (rule Cons.IH)
        then show ?thesis
          using k d False by (simp add: get_entry_own set_entry_own)
      qed
    qed
  qed
qed

lemma delete_loop_agree:
  "ids_agree R tbl \<Longrightarrow> ids_agree R (snd (delete_loop m q ks tbl n))"
proof (induction ks arbitrary: tbl n)
  case Nil
  then show ?case by simp
next
  case (Cons k ks)
  then show ?case
    by (auto split: option.splits intro: tombstone_agree)
qed

lemma insert_store_agree:
  "list_all (\<lambda>d. R (to_string (get_prop d ''_id'')) (get_prop d ''_id'')) ds \<Longrightarrow>
   ids_agree R tbl \<Longrightarrow> ids_agree R (fst (insert_store ds tbl p))"
proof (induction ds arbitrary: tbl p)
  case Nil
  then show ?case by simp
next
  case (Cons d ds)
  obtain tbl' p' where st: "set_entry (to_string (get_prop d ''_id'')) d tbl p = (tbl', p')"
    by (cases "set_entry (to_string (get_prop d ''_id'')) d tbl p")
  have "ids_agree R (fst (set_entry (to_string (get_prop d ''_id'')) d tbl p))"
    using Cons.prems by (intro ids_agree_set_entry) simp_all
  then have "ids_agree R tbl'" using st by simp
  then show ?case using st Cons.IH Cons.prems(1) by simp
qed

lemma insert_check_string_ids:
  "insert_check uid tbl p cands n acc = Inr ins \<Longrightarrow> list_all candidate_string_id cands \<Longrightarrow>
   list_all (\<lambda>d. get_prop d ''_id'' = JStr (to_string (get_prop d ''_id''))) acc \<Longrightarrow>
   list_all (\<lambda>d. get_prop d ''_id'' = JStr (to_string (get_prop d ''_id''))) ins"
proof (induction uid tbl p cands n acc rule: insert_check.induct)
  case (1 uid tbl p n inserted)
  then show ?case by simp
next
  case (2 uid tbl p d rest n inserted)
  show ?case
  proof (cases "truthy (get_prop d ''_id'')")
    case True
    with "2.prems" have "get_prop d ''_id'' = JStr (to_string (get_prop d ''_id''))"
      by (auto intro: string_id_truthy)
    with True "2.prems" "2.IH" show ?thesis
      by (auto simp: Let_def split: if_splits)
  next
    case False
    with "2.prems" "2.IH" show ?thesis
      by (auto simp: Let_def get_prop_obj_set split: if_splits)
  qed
qed simp_all

lemma insert_data:
  "data (fst (snd (insert_docs st uid db newDocs po dk))) =
     (if \<not> isArray newDocs \<and> \<not> isObject newDocs then data db
      else (case insert_check uid (data db) (proto db) (toArray newDocs) 0 [] of
              Inl err \<Rightarrow> data db
            | Inr inserted \<Rightarrow> fst (insert_store inserted (data db) (proto db))))"
  by (simp add: insert_docs_def Let_def split: sum.splits prod.splits)

lemma load_line_agree:
  "(\<And>v. ok v \<Longrightarrow> truthy v \<Longrightarrow> R (to_string v) v) \<Longrightarrow>
   (\<And>d. parse (replace_backslash raw) = Inr (JObj d) \<Longrightarrow> ok (get_prop d ''_id'')) \<Longrightarrow>
   ids_agree R tbl \<Longrightarrow> load_line parse raw tbl p = Inr (tbl', p') \<Longrightarrow> ids_agree R tbl'"
proof -
  assume R: "\<And>v. ok v \<Longrightarrow> truthy v \<Longrightarrow> R (to_string v) v"
    and ok: "\<And>d. parse (replace_backslash raw) = Inr (JObj d) \<Longrightarrow> ok (get_prop d ''_id'')"
    and inv: "ids_agree R tbl" and run: "load_line parse raw tbl p = Inr (tbl', p')"
  from run obtain d where d: "parse (replace_backslash raw) = Inr (JObj d)"
    and t: "truthy (get_prop d ''_id'')"
    and st: "set_entry (to_string (get_prop d ''_id'')) d tbl p = (tbl', p')"
    by (auto simp: load_line_def split: sum.splits jsval.splits if_splits)
  have "ids_agree R (fst (set_entry (to_string (get_prop d ''_id'')) d tbl p))"
    using inv R [OF ok [OF d] t] by (intro ids_agree_set_entry)
  then show "ids_agree R tbl'" using st by simp
qed

lemma load_loop_agree:
  assumes R: "\<And>v. ok v \<Longrightarrow> truthy v \<Longrightarrow> R (to_string v) v"
  shows "list_all (\<lambda>raw. \<forall>d. parse (replace_backslash raw) = Inr (JObj d)
            \<longrightarrow> ok (get_prop d ''_id'')) lines \<Longrightarrow>
         ids_agree R tbl \<Longrightarrow>
         ids_agree R (fst (snd (load_loop parse strct lines tbl p corrupted)))"
proof (induction lines arbitrary: tbl p corrupted)
  case Nil
  then show ?case by simp
next
  case (Cons raw rest)
  have rest: "ids_agree R (fst (snd (load_loop parse strct rest t q c)))"
    if "ids_agree R t" for t q c
    using Cons.prems(1) that by (intro Cons.IH) simp_all
  show ?case
  proof (cases "raw = []")
    case True
    then show ?thesis using rest [OF Cons.prems(2)] by simp
  next
    case False
    show ?thesis
    proof (cases "load_line parse raw tbl p")
      case (Inl err)
      show ?thesis
      proof (cases strct)
        case True
        then show ?thesis using False Inl Cons.prems(2) by simp
      next
        case no: False
        have "ids_agree R (fst (snd (load_loop parse strct rest tbl p (corrupted @ [raw]))))"
          by (rule rest [OF Cons.prems(2)])
        then show ?thesis using False Inl no by simp
      qed
    next
      case (Inr st)
      obtain tbl' p' where st: "st = (tbl', p')" by (cases st)
      have "ids_agree R tbl'"
      proof (rule load_line_agree [where ok = ok and R = R and parse = parse and raw = raw
            and tbl = tbl and p = p and p' = p'])
        show "R (to_string v) v" if "ok v" "truthy v" for v using that by (rule R)
        show "ok (get_prop d ''_id'')" if "parse (replace_backslash raw) = Inr (JObj d)" for d
          using Cons.prems(1) that by simp
        show "ids_agree R tbl" by (rule Cons.prems(2))
        show "load_line parse raw tbl p = Inr (tbl', p')" using Inr st by simp
      qed
      then have "ids_agree R (fst (snd (load_loop parse strct rest tbl' p' corrupted)))"
        by (rule rest)
      then show ?thesis using False Inr st by simp
    qed
  qed
qed

lemma load_data:
  "data (fst (snd (load parse db dk))) =
     (case path_set (root db) of
        None \<Rightarrow> data db
      | Some r \<Rightarrow>
          (case path_set (filepath db) of
             None \<Rightarrow> data db
           | Some f \<Rightarrow>
               (case dk f of
                  None \<Rightarrow> data db
                | Some content \<Rightarrow>
                    fst (snd (load_loop parse (strict db) (split (CHR 0x0A) content) (data db)
                                (proto db) [])))))"
  by (simp add: load_def split: option.splits prod.splits)

lemma load_agree_names:
  assumes "id_names_key (data db)"
  shows "id_names_key (data (fst (snd (load parse db dk))))"
proof -
  have "ids_agree (\<lambda>k v. to_string v = k)
          (fst (snd (load_loop parse (strict db) ls (data db) (proto db) [])))" for ls
    using assms unfolding id_names_key_def
    by (intro load_loop_agree [where ok = "\<lambda>v. True"]) (simp_all add: list_all_iff)
  then show ?thesis
    using assms by (simp add: load_data id_names_key_def split: option.splits)
qed

lemma load_agree_equal:
  assumes inv: "id_equals_key (data db)"
    and lines: "list_all (line_string_id parse) (file_lines db dk)"
  shows "id_equals_key (data (fst (snd (load parse db dk))))"
proof -
  have step: "ids_agree (\<lambda>k v. v = JStr k)
      (fst (snd (load_loop parse (strict db) ls (data db) (proto db) [])))"
    if "list_all (\<lambda>raw. \<forall>d. parse (replace_backslash raw) = Inr (JObj d)
          \<longrightarrow> string_id (get_prop d ''_id'')) ls" for ls
    using inv that unfolding id_equals_key_def
    by (intro load_loop_agree [where ok = string_id]) (auto dest: string_id_truthy)
  have "list_all (\<lambda>raw. \<forall>d. parse (replace_backslash raw) = Inr (JObj d)
          \<longrightarrow> string_id (get_prop d ''_id'')) (file_lines db dk)"
    using lines by (auto simp: line_string_id_def list_all_iff)
  from step [OF this] show ?thesis
    using inv by (simp add: load_data id_equals_key_def file_lines_def split: option.splits)
qed

subsection \<open>The identifier of an updated document\<close>

lemma stamped_obj_set:
  "get_prop nd ''_id'' = JStr k' \<Longrightarrow> stamped tbl k \<Longrightarrow> stamped (obj_set k' nd tbl) k"
  by (auto simp: stamped_def map_of_obj_set)

lemma stamped_obj_set_same:
  "get_prop nd ''_id'' = JStr k \<Longrightarrow> stamped (obj_set k nd tbl) k"
  by (simp add: stamped_def map_of_obj_set)

lemma stamped_lookup:
  "stamped tbl k \<Longrightarrow> \<exists>d. map_of tbl k = Some d \<and> get_prop d ''_id'' = JStr k"
  by (simp add: stamped_def split: option.splits)

lemma stamped_set_entry:
  "get_prop nd ''_id'' = JStr k' \<Longrightarrow> stamped tbl k \<Longrightarrow> stamped (fst (set_entry k' nd tbl p)) k"
  using set_entry_cases [of k' nd tbl p] by (auto intro: stamped_obj_set)

lemma updateById_loop_stamped:
  "stamped tbl k \<Longrightarrow> stamped (fst (snd (updateById_loop om upd proj keys tbl p payload))) k"
proof (induction keys arbitrary: tbl p payload)
  case Nil
  then show ?case by simp
next
  case (Cons key keys)
  show ?case
  proof (cases "id_string key")
    case None
    then show ?thesis using Cons.prems by simp
  next
    case (Some k0)
    show ?thesis
    proof (cases "kept (get_entry tbl p k0)")
      case False
      then show ?thesis using Some Cons by simp
    next
      case True
      show ?thesis
      proof (cases "new_doc om upd (get_entry tbl p k0) k0")
        case (Inl e)
        then show ?thesis using Some True Cons.prems by simp
      next
        case (Inr nd)
        obtain tbl' p' where st: "set_entry k0 nd tbl p = (tbl', p')"
          by (cases "set_entry k0 nd tbl p")
        have "stamped (fst (set_entry k0 nd tbl p)) k"
          by (rule stamped_set_entry [OF new_doc_id [OF Inr] Cons.prems])
        then have "stamped tbl' k" using st by simp
        then show ?thesis using Some True Inr st Cons.IH by simp
      qed
    qed
  qed
qed

lemma updateById_loop_target:
  "updateById_loop om upd proj keys tbl p payload = (Inr payload', tbl', p') \<Longrightarrow>
   JStr k \<in> set keys \<Longrightarrow> map_of tbl k = Some d \<Longrightarrow> \<not> tombstoned d \<Longrightarrow> stamped tbl' k"
proof (induction keys arbitrary: tbl p payload)
  case Nil
  then show ?case by simp
next
  case (Cons key keys)
  from Cons.prems(1) obtain k0 where k0: "id_string key = Some k0"
    by (cases "id_string key") auto
  then have key: "key = JStr k0" by (rule id_string_Some)
  show ?case
  proof (cases "k0 = k")
    case True
    have entry: "get_entry tbl p k = JObj d"
      by (rule get_entry_own [OF Cons.prems(3)])
    with Cons.prems k0 True obtain nd where nd: "new_doc om upd (JObj d) k = Inr nd"
      by (cases "new_doc om upd (JObj d) k") auto
    have st: "set_entry k nd tbl p = (obj_set k nd tbl, p)"
      by (rule set_entry_own [OF Cons.prems(3)])
    let ?rest = "updateById_loop om upd proj keys (obj_set k nd tbl) p
                   (payload @ [JObj (objectProject nd proj)])"
    have "?rest = (Inr payload', tbl', p')"
      using Cons.prems k0 True entry nd st by simp
    moreover have "stamped (fst (snd ?rest)) k"
      by (rule updateById_loop_stamped) (rule stamped_obj_set_same [OF new_doc_id [OF nd]])
    ultimately show ?thesis by simp
  next
    case False
    with key Cons.prems(2) have mem: "JStr k \<in> set keys" by auto
    show ?thesis
    proof (cases "kept (get_entry tbl p k0)")
      case skip: False
      then have run: "updateById_loop om upd proj keys tbl p payload = (Inr payload', tbl', p')"
        using Cons.prems(1) k0 by simp
      show ?thesis by (rule Cons.IH [OF run mem Cons.prems(3,4)])
    next
      case hit: True
      with Cons.prems(1) k0 obtain nd where nd: "new_doc om upd (get_entry tbl p k0) k0 = Inr nd"
        by (cases "new_doc om upd (get_entry tbl p k0) k0") auto
      obtain tbl1 p1 where st: "set_entry k0 nd tbl p = (tbl1, p1)"
        by (cases "set_entry k0 nd tbl p")
      have run: "updateById_loop om upd proj keys tbl1 p1
              (payload @ [JObj (objectProject nd proj)]) = (Inr payload', tbl', p')"
        using Cons.prems(1) k0 hit nd st by simp
      have "map_of (fst (set_entry k0 nd tbl p)) k = map_of tbl k"
        using False by (intro map_of_set_entry_other) simp
      then have same: "map_of tbl1 k = Some d"
        using st Cons.prems(3) by simp
      show ?thesis by (rule Cons.IH [OF run mem same Cons.prems(4)])
    qed
  qed
qed

lemma update_loop_stamped:
  "stamped tbl k \<Longrightarrow> stamped (snd (update_loop m om q upd proj ks tbl payload)) k"
proof (induction ks arbitrary: tbl payload)
  case Nil
  then show ?case by simp
next
  case (Cons k0 ks)
  then show ?case
    by (auto split: option.splits sum.splits intro!: Cons.IH stamped_obj_set dest: new_doc_id)
qed

lemma update_loop_target:
  "update_loop m om q upd proj ks tbl payload = (Inr payload', tbl') \<Longrightarrow>
   k \<in> set ks \<Longrightarrow> map_of tbl k = Some d \<Longrightarrow> \<not> tombstoned d \<Longrightarrow> m d q \<Longrightarrow> stamped tbl' k"
proof (induction ks arbitrary: tbl payload)
  case Nil
  then show ?case by simp
next
  case (Cons k0 ks)
  show ?case
  proof (cases "k0 = k")
    case True
    with Cons.prems obtain nd where nd: "new_doc om upd (JObj d) k = Inr nd"
      by (cases "new_doc om upd (JObj d) k") auto
    let ?rest = "update_loop m om q upd proj ks (obj_set k nd tbl)
                   (payload @ [JObj (objectProject nd proj)])"
    have "?rest = (Inr payload', tbl')"
      using Cons.prems True nd by simp
    moreover have "stamped (snd ?rest) k"
      by (rule update_loop_stamped) (rule stamped_obj_set_same [OF new_doc_id [OF nd]])
    ultimately show ?thesis by simp
  next
    case False
    with Cons.prems(2) have mem: "k \<in> set ks" by auto
    from Cons.prems(1) obtain d0 where d0: "map_of tbl k0 = Some d0"
      by (cases "map_of tbl k0") auto
    show ?thesis
    proof (cases "\<not> tombstoned d0 \<and> m d0 q")
      case skip: False
      then have run: "update_loop m om q upd proj ks tbl payload = (Inr payload', tbl')"
        using Cons.prems(1) d0 by auto
      show ?thesis by (rule Cons.IH [OF run mem Cons.prems(3,4,5)])
    next
      case hit: True
      with Cons.prems(1) d0 obtain nd where nd: "new_doc om upd (JObj d0) k0 = Inr nd"
        by (cases "new_doc om upd (JObj d0) k0") auto
      have run: "update_loop m om q upd proj ks (obj_set k0 nd tbl)
              (payload @ [JObj (objectProject nd proj)]) = (Inr payload', tbl')"
        using Cons.prems(1) d0 hit nd by simp
      have same: "map_of (obj_set k0 nd tbl) k = Some d"
        using False Cons.prems(3) by (simp add: map_of_obj_set)
      show ?thesis by (rule Cons.IH [OF run mem same Cons.prems(4,5)])
    qed
  qed
qed

subsection \<open>Identifier lists and the payload\<close>

lemma updateById_loop_append:
  "updateById_loop om upd proj (pre @ post) tbl p payload =
     (case updateById_loop om upd proj pre tbl p payload of
        (Inl err, tbl', p') \<Rightarrow> (Inl err, tbl', p')
      | (Inr payload', tbl', p') \<Rightarrow> updateById_loop om upd proj post tbl' p' payload')"
  by (induction pre arbitrary: tbl p payload) (auto split: option.splits sum.splits prod.splits)

lemma deleteById_loop_append:
  "deleteById_loop (pre @ post) tbl p n =
     (case deleteById_loop pre tbl p n of
        (Inl err, tbl', p') \<Rightarrow> (Inl err, tbl', p')
      | (Inr n', tbl', p') \<Rightarrow> deleteById_loop post tbl' p' n')"
  by (induction pre arbitrary: tbl p n) (auto split: option.splits sum.splits prod.splits)

lemma persist_loop_all:
  "list_all (\<lambda>d. stringify (JObj d) = Inr (ser d)) (filter (\<lambda>d. \<not> tombstoned d) docs) \<Longrightarrow>
   persist_loop stringify strct docs payload =
     Inr (payload @ map ser (filter (\<lambda>d. \<not> tombstoned d) docs))"
  by (induction docs arbitrary: payload) auto

lemma persist_loop_skip:
  "persist_loop stringify False docs payload =
     Inr (payload @ serialized stringify (filter (\<lambda>d. \<not> tombstoned d) docs))"
  by (induction docs arbitrary: payload) (auto simp: serialized_def split: sum.splits)

lemma json_stringify_doc: "json_stringify (JObj d) = Inr (json_doc d)"
  by (simp add: json_stringify_def json_doc_def)

lemma quote_line_loop:
  "load_loop json_parse False (split (CHR 0x0A) quote_line) [] None []
     = (Inr [quote_line], [], None)"
  by code_simp

lemma newline_line_loop:
  "load_loop json_parse False (split (CHR 0x0A) newline_line) [] None [] =
     (Inr [], [(''a'', [(''_id'', JStr ''a''), (''s'', JStr [CHR 0x5C, CHR ''n''])])], None)"
  by code_simp

subsection \<open>The table after each operation\<close>

lemma update_data:
  "data (snd (update m om db q upd proj)) =
     (if \<not> isObject q then data db
      else if invalid_update upd then data db
      else snd (update_loop m om q upd proj (map fst (data db)) (data db) []))"
  by (simp add: update_def split: prod.splits)

lemma updateById_data:
  "data (snd (updateById om db ident upd proj)) =
     (if invalid_update upd then data db
      else fst (snd (updateById_loop om upd proj (toArray ident) (data db) (proto db) [])))"
  by (simp add: updateById_def split: prod.splits)

lemma deleteById_data:
  "data (snd (deleteById db ident)) =
     fst (snd (deleteById_loop (toArray ident) (data db) (proto db) 0))"
  by (simp add: deleteById_def split: prod.splits)

lemma delete_data:
  "data (snd (delete m db q)) =
     (if \<not> isObject q then data db
      else snd (delete_loop m q (map fst (data db)) (data db) 0))"
  by (simp add: delete_def split: prod.splits)

lemma drop_data: "data (fst (snd (drop_db st db dk))) = []"
  by (simp add: drop_db_def Let_def split: option.splits sum.splits)

lemma rewrite_ops_agree:
  assumes R: "\<And>k. R k (JStr k)" and inv: "ids_agree R (data db)"
  shows "ids_agree R (data (snd (update m om db q upd proj))) \<and>
         ids_agree R (data (snd (updateById om db ident upd proj))) \<and>
         (list_all (targets_own (data db) (proto db)) (toArray ident) \<longrightarrow>
            ids_agree R (data (snd (deleteById db ident)))) \<and>
         ids_agree R (data (snd (delete m db q))) \<and>
         ids_agree R (data (fst (snd (drop_db st db dk))))"
proof (intro conjI impI)
  show "ids_agree R (data (snd (update m om db q upd proj)))"
    using inv by (simp add: update_data update_loop_agree [where R = R, OF R])
  show "ids_agree R (data (snd (updateById om db ident upd proj)))"
    using inv by (simp add: updateById_data updateById_loop_agree [where R = R, OF R])
  show "ids_agree R (data (snd (deleteById db ident)))"
    if "list_all (targets_own (data db) (proto db)) (toArray ident)"
    using inv that by (simp add: deleteById_data deleteById_loop_agree)
  show "ids_agree R (data (snd (delete m db q)))"
    using inv by (simp add: delete_data delete_loop_agree)
  show "ids_agree R (data (fst (snd (drop_db st db dk))))"
    by (simp add: drop_data ids_agree_def)
qed

lemma insert_agree_names:
  assumes "id_names_key (data db)"
  shows "id_names_key (data (fst (snd (insert_docs st uid db newDocs p dk))))"
proof -
  have "ids_agree (\<lambda>k v. to_string v = k) (fst (insert_store ds (data db) (proto db)))" for ds
    using assms unfolding id_names_key_def
    by (intro insert_store_agree) (simp_all add: list_all_iff)
  then show ?thesis
    using assms by (simp add: insert_data id_names_key_def split: sum.splits)
qed

lemma insert_agree_equal:
  assumes inv: "id_equals_key (data db)"
    and ids: "list_all candidate_string_id (toArray newDocs)"
  shows "id_equals_key (data (fst (snd (insert_docs st uid db newDocs p dk))))"
proof (cases "insert_check uid (data db) (proto db) (toArray newDocs) 0 []")
  case (Inl err)
  then show ?thesis using inv by (simp add: insert_data)
next
  case (Inr ins)
  have "list_all (\<lambda>d. get_prop d ''_id'' = JStr (to_string (get_prop d ''_id''))) ins"
    by (rule insert_check_string_ids [OF Inr ids]) simp
  then have "ids_agree (\<lambda>k v. v = JStr k) (fst (insert_store ins (data db) (proto db)))"
    using inv unfolding id_equals_key_def by (intro insert_store_agree)
  then show ?thesis using inv Inr by (simp add: insert_data id_equals_key_def)
qed

subsection \<open>What the queries return\<close>

text \<open>
  The branch of \<^verbatim>\<open>find\<close> for the empty query returns every entry; the branch for the other
  queries returns the live entries that match. Without a field list \<^verbatim>\<open>findById\<close> returns
  what the identifiers listed find and keep (the live entries, and the inherited values), and
  fails exactly when one of them is not a non-empty string.
\<close>

lemma find_loop_filter:
  "find_loop m q proj docs payload =
     payload @ map (\<lambda>d. JObj (objectProject d proj))
                 (filter (\<lambda>d. \<not> tombstoned d \<and> m d q) docs)"
  by (induction docs arbitrary: payload) auto

lemma find_every_entry:
  "find_docs m db (JObj []) proj = Inr (map (\<lambda>d. JObj (objectProject d proj)) (map snd (data db)))"
  by (simp add: find_docs_def)

lemma find_live_matches:
  "isObject q \<Longrightarrow> \<not> isEmptyObject q \<Longrightarrow>
   find_docs m db q proj =
     Inr (map (\<lambda>d. JObj (objectProject d proj))
            (filter (\<lambda>d. \<not> tombstoned d \<and> m d q) (map snd (data db))))"
  by (cases q) (simp_all add: find_docs_def find_loop_filter)

lemma project_entry_plain: "project_entry absent v None = Inr v"
  by (cases v) (simp_all add: project_entry_def objectProject_def)

lemma findById_loop_plain:
  "findById_loop absent tbl p None keys payload =
     (if list_all (\<lambda>key. id_string key \<noteq> None) keys
      then Inr (payload @ found tbl p keys) else Inl InvalidId)"
  by (induction keys arbitrary: payload)
     (auto simp: found_def project_entry_plain split: option.splits)

lemma findById_plain:
  "findById absent db ident None =
     (if list_all (\<lambda>key. id_string key \<noteq> None) (toArray ident)
      then Inr (found (data db) (proto db) (toArray ident)) else Inl InvalidId)"
  by (simp add: findById_def findById_loop_plain)

text \<open>
  An identifier that names a property of \<^verbatim>\<open>Object.prototype\<close> finds it: on the empty
  table \<^verbatim>\<open>findById('constructor')\<close> returns the inherited function, \<^verbatim>\<open>deleteById('constructor')\<close>
  stores \<^verbatim>\<open>{ $deleted: true }\<close> under that key and counts one deletion, \<^verbatim>\<open>insert\<close> rejects
  a document with that \<^verbatim>\<open>_id\<close>, and \<^verbatim>\<open>deleteById('__proto__')\<close> counts one deletion, adds no
  entry and replaces the prototype of the table.
\<close>

lemma inherited_key_is_found:
  "findById absent memory_db (JStr ''constructor'') None = Inr [JBuiltin ''constructor''] \<and>
   deleteById memory_db (JStr ''constructor'')
     = (Inr 1, memory_db\<lparr>data := [(''constructor'', [(''$deleted'', JBool True)])]\<rparr>) \<and>
   fst (insert_docs json_stringify (\<lambda>n. ''u'') memory_db
          (JObj [(''_id'', JStr ''constructor'')]) False Map.empty) = Inl IdExists \<and>
   deleteById memory_db (JStr ''__proto__'')
     = (Inr 1, memory_db\<lparr>proto := Some [(''$deleted'', JBool True)]\<rparr>)"
  by code_simp


section \<open>The claims\<close>

text \<open>
  C1. The claim: for every table and projection, \<^verbatim>\<open>find\<close> with the empty query \<^verbatim>\<open>{}\<close> returns
  exactly the live documents, projected, and no tombstoned one. The code does otherwise: the
  branch for the empty query maps the projection over every value of the table, without the
  test of \<^verbatim>\<open>$deleted\<close> that the branch for the other queries makes. After
  \<^verbatim>\<open>deleteById('a')\<close> on the table holding the document \<^verbatim>\<open>a\<close> alone, \<^verbatim>\<open>find({})\<close> still
  lists that document, marker included.
\<close>

theorem find_empty_query_lists_tombstone:
  "deleteById db_one (JStr ''a'') = (Inr 1, db_gone) \<and>
   find_docs isQueryMatch db_gone (JObj []) None =
     Inr [JObj [(''_id'', JStr ''a''), (''name'', JStr ''n''), (''$deleted'', JBool True)]]"
  by code_simp

theorem find_empty_query_lists_tombstone_witness:
  "find_docs (\<lambda>d q. True) db_gone (JObj []) None \<noteq> Inr []"
  using find_empty_query_lists_tombstone [of "\<lambda>d q. True"] by simp

text \<open>
  C5. The claim: a batch of valid documents whose identifiers are free is inserted, and
  \<^verbatim>\<open>insert\<close> returns the list of the inserted documents. The code stores the documents and
  then returns \<^verbatim>\<open>Promise.resolve()\<close>: the promise resolves with \<^verbatim>\<open>undefined\<close>, not with the
  documents that its own \<^verbatim>\<open>@returns\<close> line announces.
\<close>

theorem insert_resolves_with_undefined:
  "insert_docs stringify uid memory_db
       (JObj [(''_id'', JStr ''a''), (''name'', JStr ''n'')]) False dk
     = (Inr JUndefined, db_one, dk)"
  by (simp add: insert_docs_def memory_db_def db_one_def get_prop_def bad_field_name_def
      obj_set_def get_entry_def inherited_def proto_names_def set_entry_def)

theorem insert_resolves_with_undefined_witness:
  "fst (insert_docs json_stringify (\<lambda>n. ''u'') memory_db
          (JObj [(''_id'', JStr ''a''), (''name'', JStr ''n'')]) False Map.empty)
     = Inr JUndefined"
  using insert_resolves_with_undefined [of json_stringify "\<lambda>n. ''u''" Map.empty] by simp

text \<open>
  C6. The claim: \<^verbatim>\<open>findById\<close> leaves tombstoned and missing entries out of its result, never
  fails on a missing identifier, and fails exactly when an identifier is not a non-empty
  string. The code projects the entry first and tests \<^verbatim>\<open>$deleted\<close> on the projection: with a
  field list that does not name \<^verbatim>\<open>$deleted\<close> the marker is gone when it is tested, and the
  tombstoned document is returned. Without a field list the same call leaves it out.
\<close>

theorem findById_projects_tombstone:
  "findById absent db_gone (JStr ''a'') (Some [''name'']) = Inr [JObj [(''name'', JStr ''n'')]] \<and>
   findById absent db_gone (JStr ''a'') None = Inr []"
  by code_simp

theorem findById_projects_tombstone_witness:
  "findById (\<lambda>v fs. Inr JUndefined) db_gone (JStr ''a'') (Some [''name'']) \<noteq> Inr []"
  using findById_projects_tombstone [of "\<lambda>v fs. Inr JUndefined"] by simp

text \<open>
  C8. For every table and every identifier (a non-empty string) whose entry is already
  tombstoned, \<^verbatim>\<open>deleteById\<close> on that identifier, given alone or as a list of one, returns the
  count 0 and leaves the instance as it was.
\<close>

theorem delete_tombstoned_again:
  "map_of (data db) k = Some d \<Longrightarrow> tombstoned d \<Longrightarrow> k \<noteq> [] \<Longrightarrow>
   deleteById db (JStr k) = (Inr 0, db) \<and> deleteById db (JArr [JStr k]) = (Inr 0, db)"
  by (simp add: deleteById_def get_entry_own)

theorem delete_tombstoned_again_witness:
  "deleteById db_one (JStr ''a'') = (Inr 1, db_gone) \<and>
   deleteById db_gone (JStr ''a'') = (Inr 0, db_gone) \<and>
   deleteById db_gone (JArr [JStr ''a'']) = (Inr 0, db_gone)"
proof -
  have entry: "map_of (data db_gone) ''a''
      = Some [(''_id'', JStr ''a''), (''name'', JStr ''n''), (''$deleted'', JBool True)]"
    by (simp add: db_gone_def memory_db_def)
  have marked: "tombstoned [(''_id'', JStr ''a''), (''name'', JStr ''n''), (''$deleted'', JBool True)]"
    by (simp add: tombstoned_def get_prop_def)
  have first: "deleteById db_one (JStr ''a'') = (Inr 1, db_gone)"
    by code_simp
  show ?thesis
    using delete_tombstoned_again [OF entry marked] first by simp
qed

text \<open>
  C10. There is a batch of two valid documents with the same \<^verbatim>\<open>_id\<close>, absent from the table,
  that \<^verbatim>\<open>insert\<close> does not reject: the first loop collects both documents, and after the call
  the table holds the later one alone under that \<^verbatim>\<open>_id\<close>.
\<close>

theorem insert_same_id_twice_keeps_last:
  "insert_check uid [] None [JObj [(''_id'', JStr ''a''), (''v'', JNum 1)],
                             JObj [(''_id'', JStr ''a''), (''v'', JNum 2)]] 0 []
     = Inr [[(''_id'', JStr ''a''), (''v'', JNum 1)], [(''_id'', JStr ''a''), (''v'', JNum 2)]] \<and>
   insert_docs stringify uid memory_db
       (JArr [JObj [(''_id'', JStr ''a''), (''v'', JNum 1)],
              JObj [(''_id'', JStr ''a''), (''v'', JNum 2)]]) False dk
     = (Inr JUndefined,
        memory_db\<lparr>data := [(''a'', [(''_id'', JStr ''a''), (''v'', JNum 2)])]\<rparr>, dk)"
  by (simp add: insert_docs_def memory_db_def get_prop_def bad_field_name_def obj_set_def
      get_entry_def inherited_def proto_names_def set_entry_def)

theorem insert_same_id_twice_keeps_last_witness:
  "data (fst (snd (insert_docs json_stringify (\<lambda>n. ''u'') memory_db
       (JArr [JObj [(''_id'', JStr ''a''), (''v'', JNum 1)],
              JObj [(''_id'', JStr ''a''), (''v'', JNum 2)]]) False Map.empty)))
     = [(''a'', [(''_id'', JStr ''a''), (''v'', JNum 2)])]"
  using insert_same_id_twice_keeps_last [of "\<lambda>n. ''u''" json_stringify Map.empty] by simp

text \<open>
  C2, as amended. The claim as stated (a batch call that fails validation leaves the table
  unchanged) fails for \<^verbatim>\<open>updateById\<close> and \<^verbatim>\<open>deleteById\<close>, which check each identifier when
  its turn comes in the loop that also mutates. What holds:
  \<^item> an \<^verbatim>\<open>insert\<close> that rejects without the persist option has changed neither the table
    nor the disk, and with any option an \<^verbatim>\<open>insert\<close> whose first loop rejects a candidate has
    changed neither;
  \<^item> an \<^verbatim>\<open>updateById\<close> that rejects its update argument has changed nothing;
  \<^item> when \<^verbatim>\<open>updateById\<close> or \<^verbatim>\<open>deleteById\<close> reaches a malformed identifier, the call is
    rejected and the instance is the one that the call on the identifiers listed before it
    produces: those have been updated or tombstoned, the later ones have not been looked at.
\<close>

theorem rejection_and_the_table:
  "(fst (insert_docs stringify uid db newDocs False dk) = Inl err \<longrightarrow>
      snd (insert_docs stringify uid db newDocs False dk) = (db, dk)) \<and>
   (insert_check uid (data db) (proto db) (toArray newDocs) 0 [] = Inl err \<longrightarrow>
      snd (insert_docs stringify uid db newDocs persist_opt dk) = (db, dk)) \<and>
   (invalid_update upd \<longrightarrow>
      updateById objectModify db ident upd projection = (Inl InvalidUpdate, db)) \<and>
   (updateById objectModify db (JArr pre) upd projection = (Inr payload, db') \<longrightarrow>
    id_string bad = None \<longrightarrow>
      updateById objectModify db (JArr (pre @ bad # post)) upd projection = (Inl InvalidId, db')) \<and>
   (deleteById db (JArr pre) = (Inr n, db'') \<longrightarrow> id_string bad = None \<longrightarrow>
      deleteById db (JArr (pre @ bad # post)) = (Inl InvalidId, db''))"
proof (intro conjI impI)
  assume "fst (insert_docs stringify uid db newDocs False dk) = Inl err"
  then show "snd (insert_docs stringify uid db newDocs False dk) = (db, dk)"
    by (auto simp: insert_docs_def Let_def split: if_splits sum.splits)
next
  assume "insert_check uid (data db) (proto db) (toArray newDocs) 0 [] = Inl err"
  then show "snd (insert_docs stringify uid db newDocs persist_opt dk) = (db, dk)"
    by (auto simp: insert_docs_def Let_def split: if_splits sum.splits)
next
  assume "invalid_update upd"
  then show "updateById objectModify db ident upd projection = (Inl InvalidUpdate, db)"
    by (simp add: updateById_def)
next
  assume "updateById objectModify db (JArr pre) upd projection = (Inr payload, db')"
    and "id_string bad = None"
  then show "updateById objectModify db (JArr (pre @ bad # post)) upd projection
      = (Inl InvalidId, db')"
    by (auto simp: updateById_def updateById_loop_append split: if_splits prod.splits sum.splits)
next
  assume "deleteById db (JArr pre) = (Inr n, db'')" and "id_string bad = None"
  then show "deleteById db (JArr (pre @ bad # post)) = (Inl InvalidId, db'')"
    by (auto simp: deleteById_def deleteById_loop_append split: if_splits prod.splits sum.splits)
qed

theorem rejection_and_the_table_witness:
  "snd (insert_docs json_stringify (\<lambda>n. ''u'') db_one (JNum 1) False Map.empty) = (db_one, Map.empty) \<and>
   snd (insert_docs json_stringify (\<lambda>n. ''u'') db_one
          (JArr [JObj [(''_id'', JStr ''b'')], JObj [(''_id'', JStr ''a'')]]) True Map.empty)
     = (db_one, Map.empty) \<and>
   updateById (\<lambda>d u. Inr (spread d)) db_one (JStr ''a'')
       (JObj [(''_id'', JStr ''x''), (''field'', JNum 1)]) None
     = (Inl InvalidUpdate, db_one) \<and>
   updateById (\<lambda>d u. Inr (spread d)) db_one (JArr ([JStr ''a''] @ JNum 5 # []))
       (JObj [(''name'', JStr ''m'')]) None
     = (Inl InvalidId, db_one\<lparr>data := [(''a'', [(''name'', JStr ''m''), (''_id'', JStr ''a'')])]\<rparr>) \<and>
   deleteById db_one (JArr ([JStr ''a''] @ JStr [] # [])) = (Inl InvalidId, db_gone)"
proof -
  have a: "fst (insert_docs json_stringify (\<lambda>n. ''u'') db_one (JNum 1) False Map.empty)
      = Inl InvalidNewDocs"
    by (simp add: insert_docs_def)
  have b: "insert_check (\<lambda>n. ''u'') (data db_one) (proto db_one)
        (toArray (JArr [JObj [(''_id'', JStr ''b'')], JObj [(''_id'', JStr ''a'')]])) 0 []
      = Inl IdExists"
    by code_simp
  have c: "invalid_update (JObj [(''_id'', JStr ''x''), (''field'', JNum 1)])"
    by code_simp
  have d: "updateById (\<lambda>d u. Inr (spread d)) db_one (JArr [JStr ''a''])
      (JObj [(''name'', JStr ''m'')]) None
      = (Inr [JObj [(''name'', JStr ''m''), (''_id'', JStr ''a'')]],
         db_one\<lparr>data := [(''a'', [(''name'', JStr ''m''), (''_id'', JStr ''a'')])]\<rparr>)"
    by code_simp
  have e: "deleteById db_one (JArr [JStr ''a'']) = (Inr 1, db_gone)"
    by code_simp
  have f: "id_string (JNum 5) = None" "id_string (JStr []) = None"
    by simp_all
  note claim = rejection_and_the_table
  show ?thesis
    using claim [where db = db_one and stringify = json_stringify and uid = "\<lambda>n. ''u''"
          and newDocs = "JNum 1" and dk = Map.empty and err = InvalidNewDocs, THEN conjunct1] a
      claim [where db = db_one and stringify = json_stringify and uid = "\<lambda>n. ''u''"
          and newDocs = "JArr [JObj [(''_id'', JStr ''b'')], JObj [(''_id'', JStr ''a'')]]"
          and dk = Map.empty and err = IdExists and persist_opt = True,
          THEN conjunct2, THEN conjunct1] b
      claim [where db = db_one and upd = "JObj [(''_id'', JStr ''x''), (''field'', JNum 1)]"
          and objectModify = "\<lambda>d u. Inr (spread d)" and ident = "JStr ''a''" and projection = None,
          THEN conjunct2, THEN conjunct2, THEN conjunct1] c
      claim [where db = db_one and upd = "JObj [(''name'', JStr ''m'')]"
          and objectModify = "\<lambda>d u. Inr (spread d)" and pre = "[JStr ''a'']" and projection = None
          and bad = "JNum 5" and post = "[]",
          THEN conjunct2, THEN conjunct2, THEN conjunct2, THEN conjunct1] d f
      claim [where db = db_one and pre = "[JStr ''a'']" and bad = "JStr []" and post = "[]",
          THEN conjunct2, THEN conjunct2, THEN conjunct2, THEN conjunct2] e f
    by simp
qed

text \<open>
  The claim of C2 as stated fails on the table holding the live document \<^verbatim>\<open>a\<close>:
  \<^verbatim>\<open>updateById(['a', 5], { name: 'm' })\<close> is rejected for the identifier \<^verbatim>\<open>5\<close> after \<^verbatim>\<open>a\<close> has
  been replaced, and \<^verbatim>\<open>deleteById(['a', ''])\<close> is rejected for the empty string after \<^verbatim>\<open>a\<close>
  has been tombstoned.
\<close>

theorem rejected_by_id_calls_change_table:
  "updateById (\<lambda>d u. Inr (spread d)) db_one (JArr [JStr ''a'', JNum 5])
       (JObj [(''name'', JStr ''m'')]) None
     = (Inl InvalidId, db_one\<lparr>data := [(''a'', [(''name'', JStr ''m''), (''_id'', JStr ''a'')])]\<rparr>) \<and>
   deleteById db_one (JArr [JStr ''a'', JStr []]) = (Inl InvalidId, db_gone)"
  by code_simp

text \<open>
  C3. The claim: \<^verbatim>\<open>persist()\<close> followed by \<^verbatim>\<open>load()\<close> on a fresh instance backed by the same
  file gives back the live documents, with no corrupted line. The code does otherwise for a
  document whose serialisation holds a backslash: \<^verbatim>\<open>load\<close> doubles the first backslash of
  every line before it parses the line. For the document \<^verbatim>\<open>{ _id: 'a', s: '"' }\<close> the line
  written by \<^verbatim>\<open>persist\<close> no longer parses: the fresh instance is empty and the line is
  reported as corrupted. For a string holding a line feed the line still parses, to a different
  string: a backslash followed by the letter n.
\<close>

theorem persist_then_load_loses_document:
  "persist json_stringify (file_db\<lparr>data := quote_table\<rparr>) quote_table Map.empty
     = Inr [''r/db.txt'' \<mapsto> quote_line] \<and>
   load json_parse file_db [''r/db.txt'' \<mapsto> quote_line]
     = (Inr [quote_line], file_db, [''r/db.txt'' \<mapsto> quote_line]) \<and>
   persist json_stringify (file_db\<lparr>data := newline_table\<rparr>) newline_table Map.empty
     = Inr [''r/db.txt'' \<mapsto> newline_line] \<and>
   load json_parse file_db [''r/db.txt'' \<mapsto> newline_line]
     = (Inr [],
        file_db\<lparr>data := [(''a'', [(''_id'', JStr ''a''), (''s'', JStr [CHR 0x5C, CHR ''n''])])]\<rparr>,
        [''r/db.txt'' \<mapsto> newline_line])"
proof (intro conjI)
  show "persist json_stringify (file_db\<lparr>data := quote_table\<rparr>) quote_table Map.empty
     = Inr [''r/db.txt'' \<mapsto> quote_line]"
    by (simp add: persist_def file_db_def tombstoned_def get_prop_def json_stringify_def
        json_quote_def quote_table_def quote_line_def)
  show "load json_parse file_db [''r/db.txt'' \<mapsto> quote_line]
     = (Inr [quote_line], file_db, [''r/db.txt'' \<mapsto> quote_line])"
    using quote_line_loop by (simp add: load_def file_db_def)
  show "persist json_stringify (file_db\<lparr>data := newline_table\<rparr>) newline_table Map.empty
     = Inr [''r/db.txt'' \<mapsto> newline_line]"
    by (simp add: persist_def file_db_def tombstoned_def get_prop_def json_stringify_def
        json_quote_def newline_table_def newline_line_def)
  show "load json_parse file_db [''r/db.txt'' \<mapsto> newline_line]
     = (Inr [],
        file_db\<lparr>data := [(''a'', [(''_id'', JStr ''a''), (''s'', JStr [CHR 0x5C, CHR ''n''])])]\<rparr>,
        [''r/db.txt'' \<mapsto> newline_line])"
    using newline_line_loop by (simp add: load_def file_db_def)
qed

theorem persist_then_load_loses_document_witness:
  "live_docs (data (fst (snd (load json_parse file_db [''r/db.txt'' \<mapsto> quote_line])))) = [] \<and>
   live_docs quote_table = [[(''_id'', JStr ''a''), (''s'', JStr [CHR 0x22])]] \<and>
   live_docs (data (fst (snd (load json_parse file_db [''r/db.txt'' \<mapsto> newline_line]))))
     = [[(''_id'', JStr ''a''), (''s'', JStr [CHR 0x5C, CHR ''n''])]] \<and>
   live_docs newline_table = [[(''_id'', JStr ''a''), (''s'', JStr [CHR 0x0A])]]"
  using persist_then_load_loses_document
  by (simp add: live_docs_def file_db_def quote_table_def newline_table_def tombstoned_def
      get_prop_def)

text \<open>
  C4. A successful \<^verbatim>\<open>updateById\<close> leaves, under every identifier it lists whose entry was
  live, a document whose \<^verbatim>\<open>_id\<close> is that identifier, and a successful \<^verbatim>\<open>update\<close> does the same
  for every live entry that matches the query. This holds for a plain replacement and for a
  modifier set, whatever the modifier engine returns and whatever \<^verbatim>\<open>_id\<close> the update argument
  carries.
\<close>

theorem update_restamps_id:
  "(updateById objectModify db ident upd projection = (Inr payload, db') \<longrightarrow>
    JStr k \<in> set (toArray ident) \<longrightarrow> map_of (data db) k = Some d \<longrightarrow> \<not> tombstoned d \<longrightarrow>
      (\<exists>d'. map_of (data db') k = Some d' \<and> get_prop d' ''_id'' = JStr k)) \<and>
   (update isQueryMatch objectModify db query upd projection = (Inr payload, db') \<longrightarrow>
    map_of (data db) k = Some d \<longrightarrow> \<not> tombstoned d \<longrightarrow> isQueryMatch d query \<longrightarrow>
      (\<exists>d'. map_of (data db') k = Some d' \<and> get_prop d' ''_id'' = JStr k))"
proof (intro conjI impI)
  assume run: "updateById objectModify db ident upd projection = (Inr payload, db')"
    and mem: "JStr k \<in> set (toArray ident)"
    and entry: "map_of (data db) k = Some d" and live: "\<not> tombstoned d"
  from run obtain tbl' p' where
    loop: "updateById_loop objectModify upd projection (toArray ident) (data db) (proto db) []
             = (Inr payload, tbl', p')"
    and db': "data db' = tbl'"
    by (auto simp: updateById_def split: if_splits prod.splits)
  have "stamped tbl' k"
    by (rule updateById_loop_target [OF loop mem entry live])
  then show "\<exists>d'. map_of (data db') k = Some d' \<and> get_prop d' ''_id'' = JStr k"
    using db' by (simp add: stamped_lookup)
next
  assume run: "update isQueryMatch objectModify db query upd projection = (Inr payload, db')"
    and entry: "map_of (data db) k = Some d" and live: "\<not> tombstoned d"
    and hit: "isQueryMatch d query"
  from run obtain tbl' where
    loop: "update_loop isQueryMatch objectModify query upd projection (map fst (data db))
             (data db) [] = (Inr payload, tbl')"
    and db': "data db' = tbl'"
    by (auto simp: update_def split: if_splits prod.splits)
  have mem: "k \<in> set (map fst (data db))"
    using entry by (auto dest: map_of_SomeD intro: rev_image_eqI)
  have "stamped tbl' k"
    by (rule update_loop_target [OF loop mem entry live hit])
  then show "\<exists>d'. map_of (data db') k = Some d' \<and> get_prop d' ''_id'' = JStr k"
    using db' by (simp add: stamped_lookup)
qed


theorem update_restamps_id_witness:
  "updateById (\<lambda>d u. Inr (obj_set ''_id'' (JStr ''x'') (spread d))) db_one (JStr ''a'')
       (JObj [(''$set'', JObj [(''_id'', JStr ''x'')])]) None
     = (Inr [JObj [(''_id'', JStr ''a''), (''name'', JStr ''n'')]], db_one) \<and>
   (\<exists>d'. map_of (data db_one) ''a'' = Some d' \<and> get_prop d' ''_id'' = JStr ''a'') \<and>
   update (\<lambda>d q. True) (\<lambda>d u. Inr (spread d)) db_one (JObj [])
       (JObj [(''_id'', JNum 0), (''field'', JNum 1)]) None
     = (Inr [JObj [(''_id'', JStr ''a''), (''field'', JNum 1)]],
        db_one\<lparr>data := [(''a'', [(''_id'', JStr ''a''), (''field'', JNum 1)])]\<rparr>) \<and>
   (\<exists>d'. map_of (data (db_one\<lparr>data := [(''a'', [(''_id'', JStr ''a''), (''field'', JNum 1)])]\<rparr>)) ''a''
            = Some d' \<and> get_prop d' ''_id'' = JStr ''a'')"
proof -
  have byid: "updateById (\<lambda>d u. Inr (obj_set ''_id'' (JStr ''x'') (spread d))) db_one
       (JStr ''a'')
       (JObj [(''$set'', JObj [(''_id'', JStr ''x'')])]) None
     = (Inr [JObj [(''_id'', JStr ''a''), (''name'', JStr ''n'')]], db_one)"
    by code_simp
  have byquery: "update (\<lambda>d q. True) (\<lambda>d u. Inr (spread d)) db_one (JObj [])
       (JObj [(''_id'', JNum 0), (''field'', JNum 1)]) None
     = (Inr [JObj [(''_id'', JStr ''a''), (''field'', JNum 1)]],
        db_one\<lparr>data := [(''a'', [(''_id'', JStr ''a''), (''field'', JNum 1)])]\<rparr>)"
    by code_simp
  have mem: "JStr ''a'' \<in> set (toArray (JStr ''a''))" by simp
  have entry: "map_of (data db_one) ''a'' = Some [(''_id'', JStr ''a''), (''name'', JStr ''n'')]"
    by (simp add: db_one_def memory_db_def)
  have live: "\<not> tombstoned [(''_id'', JStr ''a''), (''name'', JStr ''n'')]"
    by (simp add: tombstoned_def get_prop_def)
  note claim = update_restamps_id
  from claim [THEN conjunct1, rule_format, OF byid mem entry live]
    claim [THEN conjunct2, rule_format, OF byquery entry live]
    byid byquery
  show ?thesis by simp
qed

text \<open>
  C7. Without a file \<^verbatim>\<open>persist\<close> throws. With a file \<open>f\<close>, when \<^verbatim>\<open>JSON.stringify\<close> serialises
  every live document (\<open>ser d\<close> being the serialisation of \<open>d\<close>), \<^verbatim>\<open>persist\<close> replaces the
  content of \<open>f\<close>, whatever it was, by the serialisations of the documents of the table that
  are not tombstoned, in the order of the table, joined by line feeds; no other file changes.
  In non-strict mode a document whose serialisation throws is skipped.
\<close>

theorem persist_writes_live_docs:
  "(path_set (filepath db) = None \<longrightarrow> persist stringify db tbl dk = Inl MemoryModePersist) \<and>
   (path_set (filepath db) = Some f \<longrightarrow>
    list_all (\<lambda>d. stringify (JObj d) = Inr (ser d)) (live_docs tbl) \<longrightarrow>
      persist stringify db tbl dk
        = Inr (dk(f \<mapsto> join [CHR 0x0A] (map ser (live_docs tbl))))) \<and>
   (path_set (filepath db) = Some f \<longrightarrow> \<not> strict db \<longrightarrow>
      persist stringify db tbl dk
        = Inr (dk(f \<mapsto> join [CHR 0x0A] (serialized stringify (live_docs tbl)))))"
  by (simp add: persist_def live_docs_def persist_loop_all persist_loop_skip)

theorem persist_writes_live_docs_witness:
  "persist json_stringify
       (file_db\<lparr>data := [(''a'', [(''_id'', JStr ''a''), (''$deleted'', JBool True)]),
                          (''b'', [(''_id'', JStr ''b''), (''n'', JNum 7)]),
                          (''c'', [(''_id'', JStr ''c'')])]\<rparr>)
       [(''a'', [(''_id'', JStr ''a''), (''$deleted'', JBool True)]),
        (''b'', [(''_id'', JStr ''b''), (''n'', JNum 7)]),
        (''c'', [(''_id'', JStr ''c'')])]
       [''r/db.txt'' \<mapsto> ''old'']
     = Inr [''r/db.txt'' \<mapsto>
             join [CHR 0x0A] [json_doc [(''_id'', JStr ''b''), (''n'', JNum 7)],
                              json_doc [(''_id'', JStr ''c'')]]] \<and>
   persist json_stringify memory_db [] Map.empty = Inl MemoryModePersist"
proof -
  let ?tbl = "[(''a'', [(''_id'', JStr ''a''), (''$deleted'', JBool True)]),
               (''b'', [(''_id'', JStr ''b''), (''n'', JNum 7)]),
               (''c'', [(''_id'', JStr ''c'')])]"
  have onfile: "path_set (filepath (file_db\<lparr>data := ?tbl\<rparr>)) = Some ''r/db.txt''"
    by (simp add: file_db_def)
  have nofile: "path_set (filepath memory_db) = None"
    by (simp add: memory_db_def)
  have live: "live_docs ?tbl = [[(''_id'', JStr ''b''), (''n'', JNum 7)], [(''_id'', JStr ''c'')]]"
    by (simp add: live_docs_def tombstoned_def get_prop_def)
  have ok: "list_all (\<lambda>d. json_stringify (JObj d) = Inr (json_doc d)) (live_docs ?tbl)"
    by (simp add: json_stringify_doc list_all_iff)
  note claim = persist_writes_live_docs
  from claim [THEN conjunct2, THEN conjunct1, rule_format, OF onfile ok]
    claim [THEN conjunct1, rule_format, OF nofile]
  show ?thesis by (simp add: live)
qed

text \<open>
  C9, as amended. The claim as stated (every operation keeps, under every key \<open>k\<close>, a
  document whose \<^verbatim>\<open>_id\<close> equals \<open>k\<close>) fails in two ways. \<^verbatim>\<open>insert\<close> and \<^verbatim>\<open>load\<close> store a
  document under the string that its \<^verbatim>\<open>_id\<close> converts to and never ask the \<^verbatim>\<open>_id\<close> to be a
  string. \<^verbatim>\<open>deleteById\<close> reads \<^verbatim>\<open>this.data[key]\<close> along the prototype chain: for an identifier
  without an entry of its own that names an inherited property it stores a copy of the
  inherited value, marked deleted, under that key. What holds:
  \<^item> \<^verbatim>\<open>insert\<close>, \<^verbatim>\<open>update\<close>, \<^verbatim>\<open>updateById\<close>, \<^verbatim>\<open>delete\<close>, \<^verbatim>\<open>load\<close> and \<^verbatim>\<open>drop\<close> keep the
    invariant that the \<^verbatim>\<open>_id\<close> of the document stored under \<open>k\<close> converts to the string
    \<open>k\<close>, whether the call succeeds or is rejected, and \<^verbatim>\<open>deleteById\<close> keeps it when every
    identifier listed has an entry of its own or finds nothing to tombstone along the
    prototype chain;
  \<^item> \<^verbatim>\<open>update\<close>, \<^verbatim>\<open>updateById\<close>, \<^verbatim>\<open>delete\<close> and \<^verbatim>\<open>drop\<close> keep the invariant of the claim,
    with equality, \<^verbatim>\<open>deleteById\<close> keeps it under the same condition on its identifiers,
    \<^verbatim>\<open>insert\<close> keeps it when every \<^verbatim>\<open>_id\<close> given in the batch is a string, and \<^verbatim>\<open>load\<close> when
    every \<^verbatim>\<open>_id\<close> parsed from the file is a string.
\<close>

theorem operations_keep_ids_with_keys:
  "(id_names_key (data db) \<longrightarrow>
      id_names_key (data (fst (snd (insert_docs stringify uid db newDocs persist_opt dk)))) \<and>
      id_names_key (data (snd (update isQueryMatch objectModify db query upd projection))) \<and>
      id_names_key (data (snd (updateById objectModify db ident upd projection))) \<and>
      (list_all (targets_own (data db) (proto db)) (toArray ident) \<longrightarrow>
         id_names_key (data (snd (deleteById db ident)))) \<and>
      id_names_key (data (snd (delete isQueryMatch db query))) \<and>
      id_names_key (data (fst (snd (load parse db dk)))) \<and>
      id_names_key (data (fst (snd (drop_db stringify db dk))))) \<and>
   (id_equals_key (data db) \<longrightarrow>
      (list_all candidate_string_id (toArray newDocs) \<longrightarrow>
         id_equals_key (data (fst (snd (insert_docs stringify uid db newDocs persist_opt dk))))) \<and>
      id_equals_key (data (snd (update isQueryMatch objectModify db query upd projection))) \<and>
      id_equals_key (data (snd (updateById objectModify db ident upd projection))) \<and>
      (list_all (targets_own (data db) (proto db)) (toArray ident) \<longrightarrow>
         id_equals_key (data (snd (deleteById db ident)))) \<and>
      id_equals_key (data (snd (delete isQueryMatch db query))) \<and>
      (list_all (line_string_id parse) (file_lines db dk) \<longrightarrow>
         id_equals_key (data (fst (snd (load parse db dk))))) \<and>
      id_equals_key (data (fst (snd (drop_db stringify db dk)))))"
proof (intro conjI impI)
  assume inv: "id_names_key (data db)"
  then have agree: "ids_agree (\<lambda>k v. to_string v = k) (data db)"
    by (simp add: id_names_key_def)
  note rest = rewrite_ops_agree [where R = "\<lambda>k v. to_string v = k", OF _ agree,
      folded id_names_key_def]
  show "id_names_key (data (fst (snd (insert_docs stringify uid db newDocs persist_opt dk))))"
    by (rule insert_agree_names [OF inv])
  show "id_names_key (data (snd (update isQueryMatch objectModify db query upd projection)))"
    using rest by simp
  show "id_names_key (data (snd (updateById objectModify db ident upd projection)))"
    using rest by simp
  show "id_names_key (data (snd (deleteById db ident)))"
    if "list_all (targets_own (data db) (proto db)) (toArray ident)"
    using rest that by simp
  show "id_names_key (data (snd (delete isQueryMatch db query)))"
    using rest by simp
  show "id_names_key (data (fst (snd (load parse db dk))))"
    by (rule load_agree_names [OF inv])
  show "id_names_key (data (fst (snd (drop_db stringify db dk))))"
    using rest by simp
next
  assume inv: "id_equals_key (data db)"
  then have agree: "ids_agree (\<lambda>k v. v = JStr k) (data db)"
    by (simp add: id_equals_key_def)
  note rest = rewrite_ops_agree [where R = "\<lambda>k v. v = JStr k", OF _ agree,
      folded id_equals_key_def]
  show "id_equals_key (data (snd (update isQueryMatch objectModify db query upd projection)))"
    using rest by simp
  show "id_equals_key (data (snd (updateById objectModify db ident upd projection)))"
    using rest by simp
  show "id_equals_key (data (snd (deleteById db ident)))"
    if "list_all (targets_own (data db) (proto db)) (toArray ident)"
    using rest that by simp
  show "id_equals_key (data (snd (delete isQueryMatch db query)))"
    using rest by simp
  show "id_equals_key (data (fst (snd (drop_db stringify db dk))))"
    using rest by simp
  show "id_equals_key (data (fst (snd (insert_docs stringify uid db newDocs persist_opt dk))))"
    if "list_all candidate_string_id (toArray newDocs)"
    by (rule insert_agree_equal [OF inv that])
  show "id_equals_key (data (fst (snd (load parse db dk))))"
    if "list_all (line_string_id parse) (file_lines db dk)"
    by (rule load_agree_equal [OF inv that])
qed

theorem operations_keep_ids_with_keys_witness:
  "id_names_key (data (fst (snd (insert_docs json_stringify (\<lambda>n. ''u'') db_one
       (JObj [(''_id'', JNum 5)]) False Map.empty)))) \<and>
   id_equals_key (data (fst (snd (insert_docs json_stringify (\<lambda>n. ''u'') db_one
       (JObj [(''name'', JStr ''z'')]) False Map.empty)))) \<and>
   id_equals_key (data (snd (updateById (\<lambda>d u. Inr (spread d)) db_one (JStr ''constructor'')
       (JObj [(''v'', JNum 1)]) None))) \<and>
   id_names_key (data (snd (deleteById db_one (JArr [JStr ''a'', JStr ''b''])))) \<and>
   id_equals_key (data (snd (deleteById db_one (JArr [JStr ''a'', JStr ''b''])))) \<and>
   id_equals_key (data (fst (snd (load json_parse file_db [''r/db.txt'' \<mapsto> newline_line]))))"
proof -
  have names: "id_names_key (data db_one)"
    by code_simp
  have equal: "id_equals_key (data db_one)"
    by code_simp
  have fresh: "id_equals_key (data file_db)"
    by code_simp
  have given: "list_all candidate_string_id (toArray (JObj [(''name'', JStr ''z'')]))"
    by code_simp
  have own: "list_all (targets_own (data db_one) (proto db_one))
      (toArray (JArr [JStr ''a'', JStr ''b'']))"
    by code_simp
  have lines: "list_all (line_string_id json_parse)
      (file_lines file_db [''r/db.txt'' \<mapsto> newline_line])"
    by code_simp
  note claim = operations_keep_ids_with_keys
  have a: "id_names_key (data (fst (snd (insert_docs json_stringify (\<lambda>n. ''u'') db_one
       (JObj [(''_id'', JNum 5)]) False Map.empty))))"
    using claim [where db = db_one, THEN conjunct1, rule_format, OF names] by blast
  have b: "id_equals_key (data (fst (snd (insert_docs json_stringify (\<lambda>n. ''u'') db_one
       (JObj [(''name'', JStr ''z'')]) False Map.empty))))"
    using claim [where db = db_one and newDocs = "JObj [(''name'', JStr ''z'')]",
        THEN conjunct2, rule_format, OF equal] given by blast
  have c: "id_equals_key (data (snd (updateById (\<lambda>d u. Inr (spread d)) db_one
       (JStr ''constructor'') (JObj [(''v'', JNum 1)]) None)))"
    using claim [where db = db_one, THEN conjunct2, rule_format, OF equal] by blast
  have d1: "id_names_key (data (snd (deleteById db_one (JArr [JStr ''a'', JStr ''b'']))))"
    using claim [where db = db_one and ident = "JArr [JStr ''a'', JStr ''b'']",
        THEN conjunct1, rule_format, OF names] own by blast
  have d2: "id_equals_key (data (snd (deleteById db_one (JArr [JStr ''a'', JStr ''b'']))))"
    using claim [where db = db_one and ident = "JArr [JStr ''a'', JStr ''b'']",
        THEN conjunct2, rule_format, OF equal] own by blast
  have e: "id_equals_key (data (fst (snd (load json_parse file_db
       [''r/db.txt'' \<mapsto> newline_line]))))"
    using claim [where db = file_db and parse = json_parse
        and dk = "[''r/db.txt'' \<mapsto> newline_line]", THEN conjunct2, rule_format, OF fresh]
      lines by blast
  from a b c d1 d2 e show ?thesis by simp
qed

text \<open>
  The claim of C9 as stated fails on the empty table. \<^verbatim>\<open>insert({ _id: 5 })\<close> is accepted and
  stores the document under the key \<^verbatim>\<open>'5'\<close>, a string, while its \<^verbatim>\<open>_id\<close> is the number 5.
  \<^verbatim>\<open>deleteById('constructor')\<close> finds the function that the table inherits and stores
  \<^verbatim>\<open>{ $deleted: true }\<close>, a document without \<^verbatim>\<open>_id\<close>, under that key.
\<close>

theorem number_id_is_not_its_key:
  "id_equals_key (data memory_db) \<and>
   insert_docs json_stringify (\<lambda>n. ''u'') memory_db (JObj [(''_id'', JNum 5)]) False Map.empty
     = (Inr JUndefined, memory_db\<lparr>data := [(''5'', [(''_id'', JNum 5)])]\<rparr>, Map.empty) \<and>
   \<not> id_equals_key (data (memory_db\<lparr>data := [(''5'', [(''_id'', JNum 5)])]\<rparr>)) \<and>
   deleteById memory_db (JStr ''constructor'')
     = (Inr 1, memory_db\<lparr>data := [(''constructor'', [(''$deleted'', JBool True)])]\<rparr>) \<and>
   \<not> id_names_key
        (data (memory_db\<lparr>data := [(''constructor'', [(''$deleted'', JBool True)])]\<rparr>))"
proof -
  have five: "show_int 5 = ''5''"
    by code_simp
  have ins: "insert_docs json_stringify (\<lambda>n. ''u'') memory_db (JObj [(''_id'', JNum 5)]) False
        Map.empty
     = (Inr JUndefined, memory_db\<lparr>data := [(''5'', [(''_id'', JNum 5)])]\<rparr>, Map.empty)"
    by (simp add: insert_docs_def memory_db_def get_prop_def bad_field_name_def obj_set_def
        get_entry_def inherited_def proto_names_def set_entry_def five)
  have del: "deleteById memory_db (JStr ''constructor'')
     = (Inr 1, memory_db\<lparr>data := [(''constructor'', [(''$deleted'', JBool True)])]\<rparr>)"
    by code_simp
  have rest: "id_equals_key (data memory_db) \<and>
     \<not> id_equals_key (data (memory_db\<lparr>data := [(''5'', [(''_id'', JNum 5)])]\<rparr>)) \<and>
     \<not> id_names_key
        (data (memory_db\<lparr>data := [(''constructor'', [(''$deleted'', JBool True)])]\<rparr>))"
    by code_simp
  from ins del rest show ?thesis by simp
qed

end
